theory Spec2Isabelle
  imports Complex_Main
begin

section \<open>Approach-and-capture control and the pedestrian stop latch\<close>

text \<open>
  A shallow embedding of \<^verbatim>\<open>pathplanning_functions.py\<close> (the scanning and approach
  steps and the heading PID controller) and of the callbacks of
  \<^verbatim>\<open>object_detection_node_y.py\<close> (the stop latch and the command publisher).

  A Python float is a binary64 value: a finite number, an infinity or NaN. Every
  arithmetic operation is the exact operation followed by rounding to the nearest
  binary64 number, ties to even, and a decimal literal is the binary64 number nearest
  to it. The two zeros are one value here: they compare equal, both raise on division,
  and no statement of the sources tells them apart. Python integers are \<open>int\<close>, and an
  integer that meets a float in an operation is that float. A raised exception is the
  \<open>Inl\<close> branch of a sum.
\<close>

subsection \<open>Python floats\<close>

datatype pyfloat = Finite real | PInf | NInf | NaN

datatype error = ZeroDivisionError | IndexError | ValueError | OverflowError

text \<open>To the nearest integer, ties to even.\<close>

definition round_half_even :: "real \<Rightarrow> int" where
  "round_half_even x =
     (let f = \<lfloor>x\<rfloor>; d = x - of_int f
      in if d < 1 / 2 then f else if d > 1 / 2 then f + 1 else if even f then f else f + 1)"

text \<open>
  The binary exponent of a positive number: \<open>exp_up\<close> halves a number from 2 upwards,
  \<open>exp_down\<close> doubles one below 1, and neither leaves the exponent range of binary64
  (below \<open>2 ^ -1022\<close> the numbers are subnormal and share the exponent \<open>-1022\<close>).
\<close>

function exp_up :: "int \<Rightarrow> real \<Rightarrow> int" where
  "exp_up e a = (if 2 \<le> a \<and> e < 1024 then exp_up (e + 1) (a / 2) else e)"
  by pat_completeness auto
termination
  by (relation "measure (\<lambda>(e, a). nat (1024 - e))") simp_all

function exp_down :: "int \<Rightarrow> real \<Rightarrow> int" where
  "exp_down e a = (if a < 1 \<and> - 1022 < e then exp_down (e - 1) (a * 2) else e)"
  by pat_completeness auto
termination
  by (relation "measure (\<lambda>(e, a). nat (e + 1022))") simp_all

declare exp_up.simps [simp del]

declare exp_down.simps [simp del]

definition expo :: "real \<Rightarrow> int" where
  "expo a = (if 1 \<le> a then exp_up 0 a else exp_down 0 a)"

definition two_to :: "int \<Rightarrow> real" where
  "two_to k = (if 0 \<le> k then 2 ^ nat k else 1 / 2 ^ nat (- k))"

text \<open>
  A positive number rounded to 53 significant bits at its exponent, and the rounding
  of any real number to binary64: beyond the largest finite number the result is an
  infinity.
\<close>

definition round_at :: "int \<Rightarrow> real \<Rightarrow> real" where
  "round_at e a = of_int (round_half_even (a / two_to (e - 52))) * two_to (e - 52)"

definition round_double :: "real \<Rightarrow> pyfloat" where
  "round_double x =
     (if x = 0 then Finite 0
      else
        let y = round_at (expo \<bar>x\<bar>) \<bar>x\<bar>
        in if 2 ^ 1024 \<le> y then (if 0 < x then PInf else NInf)
           else Finite (if 0 < x then y else - y))"

text \<open>A decimal literal of the source.\<close>

definition lit :: "real \<Rightarrow> pyfloat" where
  "lit x = round_double x"

text \<open>The sign of a float as a number, and the infinity of a sign (NaN for no sign).\<close>

fun fsign :: "pyfloat \<Rightarrow> real" where
  "fsign (Finite x) = sgn x"
| "fsign PInf = 1"
| "fsign NInf = - 1"
| "fsign NaN = 0"

definition signed_inf :: "real \<Rightarrow> pyfloat" where
  "signed_inf s = (if 0 < s then PInf else if s < 0 then NInf else NaN)"

fun fneg :: "pyfloat \<Rightarrow> pyfloat" where
  "fneg (Finite x) = Finite (- x)"
| "fneg PInf = NInf"
| "fneg NInf = PInf"
| "fneg NaN = NaN"

fun fabs :: "pyfloat \<Rightarrow> pyfloat" where
  "fabs (Finite x) = Finite \<bar>x\<bar>"
| "fabs PInf = PInf"
| "fabs NInf = PInf"
| "fabs NaN = NaN"

fun fadd :: "pyfloat \<Rightarrow> pyfloat \<Rightarrow> pyfloat" where
  "fadd NaN b = NaN"
| "fadd a NaN = NaN"
| "fadd (Finite x) (Finite y) = round_double (x + y)"
| "fadd PInf NInf = NaN"
| "fadd NInf PInf = NaN"
| "fadd PInf b = PInf"
| "fadd a PInf = PInf"
| "fadd NInf b = NInf"
| "fadd a NInf = NInf"

text \<open>Subtraction is the addition of the negated operand, in binary64 as in the reals.\<close>

definition fsub :: "pyfloat \<Rightarrow> pyfloat \<Rightarrow> pyfloat" where
  "fsub a b = fadd a (fneg b)"

fun fmul :: "pyfloat \<Rightarrow> pyfloat \<Rightarrow> pyfloat" where
  "fmul NaN b = NaN"
| "fmul a NaN = NaN"
| "fmul (Finite x) (Finite y) = round_double (x * y)"
| "fmul a b = signed_inf (fsign a * fsign b)"

text \<open>\<^verbatim>\<open>a / b\<close>: Python raises when the divisor is zero, whatever the dividend.\<close>

fun fdiv :: "pyfloat \<Rightarrow> pyfloat \<Rightarrow> error + pyfloat" where
  "fdiv a (Finite y) =
     (if y = 0 then Inl ZeroDivisionError
      else case a of
             Finite x \<Rightarrow> Inr (round_double (x / y))
           | NaN \<Rightarrow> Inr NaN
           | _ \<Rightarrow> Inr (signed_inf (fsign a * sgn y)))"
| "fdiv a NaN = Inr NaN"
| "fdiv (Finite x) b = Inr (Finite 0)"
| "fdiv a b = Inr NaN"

text \<open>The comparisons: every comparison with NaN is false.\<close>

fun flt :: "pyfloat \<Rightarrow> pyfloat \<Rightarrow> bool" where
  "flt NaN b = False"
| "flt a NaN = False"
| "flt (Finite x) (Finite y) = (x < y)"
| "flt a NInf = False"
| "flt PInf b = False"
| "flt a b = True"

definition fgt :: "pyfloat \<Rightarrow> pyfloat \<Rightarrow> bool" where
  "fgt a b = flt b a"

definition feq :: "pyfloat \<Rightarrow> pyfloat \<Rightarrow> bool" where
  "feq a b = (a \<noteq> NaN \<and> a = b)"

definition fle :: "pyfloat \<Rightarrow> pyfloat \<Rightarrow> bool" where
  "fle a b = (flt a b \<or> feq a b)"

definition fge :: "pyfloat \<Rightarrow> pyfloat \<Rightarrow> bool" where
  "fge a b = fle b a"

text \<open>
  \<^verbatim>\<open>min(a, b)\<close> and \<^verbatim>\<open>max(a, b)\<close>: the first argument unless the second is smaller
  (larger).
\<close>

definition py_min :: "pyfloat \<Rightarrow> pyfloat \<Rightarrow> pyfloat" where
  "py_min a b = (if flt b a then b else a)"

definition py_max :: "pyfloat \<Rightarrow> pyfloat \<Rightarrow> pyfloat" where
  "py_max a b = (if fgt b a then b else a)"

text \<open>
  \<^verbatim>\<open>round(x)\<close> with one argument: to the nearest integer, ties to even; NaN raises
  \<^verbatim>\<open>ValueError\<close> and an infinity \<^verbatim>\<open>OverflowError\<close>.
\<close>

fun py_round :: "pyfloat \<Rightarrow> error + int" where
  "py_round (Finite x) = Inr (round_half_even x)"
| "py_round NaN = Inl ValueError"
| "py_round a = Inl OverflowError"

text \<open>
  The clamp of a value between two bounds, as the word is used for the anti-windup:
  the upper bound above it, the lower bound below it, the value itself otherwise.
\<close>

definition clamp :: "pyfloat \<Rightarrow> pyfloat \<Rightarrow> pyfloat \<Rightarrow> pyfloat" where
  "clamp x lo hi = (if fgt x hi then hi else if flt x lo then lo else x)"

subsection \<open>Constants of the path planner\<close>

definition HEADING_KP :: pyfloat where "HEADING_KP = lit 0.25"
definition HEADING_KI :: pyfloat where "HEADING_KI = lit 0.4"
definition HEADING_KD :: pyfloat where "HEADING_KD = lit 0.027"
definition INT_MAX :: pyfloat where "INT_MAX = lit 0.04"
definition OMEGA_0 :: pyfloat where "OMEGA_0 = lit 0.3"
definition OMEGA_SCALING :: pyfloat where "OMEGA_SCALING = Finite 1"
definition OMEGA_OFFSET :: pyfloat where "OMEGA_OFFSET = lit 0.1"
definition V_0 :: pyfloat where "V_0 = lit 0.02"

datatype State = SCANNING | IDENTIFIED | CAPTURED | DELIVERING | DELIVERED

subsection \<open>The heading PID controller\<close>

text \<open>
  \<^verbatim>\<open>PIDController(v_0, theta_ref, theta_hat, prev_e, prev_int, delta_t, gains)\<close>.
  The only statement that can raise is the division by \<open>delta_t\<close>; the error, its
  integral and the anti-windup are computed before it. The function reads its arguments
  and the module constants and writes nothing.
\<close>

definition PIDController ::
  "pyfloat \<Rightarrow> pyfloat \<Rightarrow> pyfloat \<Rightarrow> pyfloat \<Rightarrow> pyfloat \<Rightarrow> pyfloat
     \<Rightarrow> pyfloat \<times> pyfloat \<times> pyfloat
     \<Rightarrow> error + (pyfloat \<times> pyfloat \<times> pyfloat \<times> pyfloat \<times> pyfloat)" where
  "PIDController v_0 theta_ref theta_hat prev_e prev_int delta_t gains =
     (let e = fsub theta_ref theta_hat;
          e_int = fadd prev_int (fmul e delta_t);
          e_int = py_max (py_min e_int INT_MAX) (fneg INT_MAX)
      in case fdiv (fsub e prev_e) delta_t of
           Inl err \<Rightarrow> Inl err
         | Inr e_der \<Rightarrow>
             let (Kp, Ki, Kd) = gains;
                 omega_p = fmul Kp e;
                 omega_i = fmul Ki e_int;
                 omega_d = fmul Kd e_der;
                 omega = fadd (fadd omega_p omega_i) omega_d;
                 omega = (if fgt omega (Finite 0) then fadd omega OMEGA_OFFSET
                          else if flt omega (Finite 0) then fsub omega OMEGA_OFFSET
                          else omega)
             in Inr (v_0, omega, e, e_int, e_der))"






subsection \<open>Messages, detection lists and loops\<close>

text \<open>
  The car command message: the planner and the perception node write its \<^verbatim>\<open>v\<close> and
  \<^verbatim>\<open>omega\<close> attributes; the header is a time stamp.
\<close>

record Twist2DStamped =
  msg_header :: nat
  msg_v :: pyfloat
  msg_omega :: pyfloat

text \<open>\<^verbatim>\<open>duckiedata[i]\<close> for an index that is not negative: out of range raises.\<close>

definition getitem :: "pyfloat list \<Rightarrow> nat \<Rightarrow> error + pyfloat" where
  "getitem xs i = (if i < length xs then Inr (xs ! i) else Inl IndexError)"

text \<open>
  \<^verbatim>\<open>for i in <indices>: <body>\<close> over a loop state; an exception in the body leaves
  the loop.
\<close>

fun for_range :: "nat list \<Rightarrow> (nat \<Rightarrow> 's \<Rightarrow> error + 's) \<Rightarrow> 's \<Rightarrow> error + 's" where
  "for_range [] body s = Inr s"
| "for_range (i # is) body s =
     (case body i s of Inl err \<Rightarrow> Inl err | Inr s' \<Rightarrow> for_range is body s')"

text \<open>
  \<^verbatim>\<open>x in xs\<close> on a list of floats, by equality. The approach loop appends the object
  \<^verbatim>\<open>current_obj\<close> itself, and only after it has compared equal to an id, so the
  identity test that \<^verbatim>\<open>in\<close> makes first never decides otherwise.
\<close>

definition py_in :: "pyfloat \<Rightarrow> pyfloat list \<Rightarrow> bool" where
  "py_in x xs = list_ex (\<lambda>y. feq y x) xs"

subsection \<open>Scanning\<close>

definition scanning_body ::
  "pyfloat list \<Rightarrow> pyfloat \<Rightarrow> nat \<Rightarrow> Twist2DStamped \<times> State
     \<Rightarrow> error + (Twist2DStamped \<times> State)" where
  "scanning_body duckiedata current_obj i s =
     (case s of (car_control_msg, new_state) \<Rightarrow>
        (case getitem duckiedata (i * 3 + 3) of
           Inl err \<Rightarrow> Inl err
         | Inr ident \<Rightarrow>
             if feq ident current_obj
             then Inr (car_control_msg\<lparr>msg_v := Finite 0, msg_omega := Finite 0\<rparr>, IDENTIFIED)
             else Inr (car_control_msg, new_state)))"

definition scanning ::
  "Twist2DStamped \<Rightarrow> State \<Rightarrow> pyfloat list \<Rightarrow> pyfloat \<Rightarrow> pyfloat
     \<Rightarrow> error + (Twist2DStamped \<times> State)" where
  "scanning car_control_msg new_state duckiedata current_obj omega =
     (let car_control_msg = car_control_msg\<lparr>msg_v := Finite 0, msg_omega := omega\<rparr>
      in case getitem duckiedata 0 of
           Inl err \<Rightarrow> Inl err
         | Inr n \<Rightarrow>
             (case py_round n of
                Inl err \<Rightarrow> Inl err
              | Inr k \<Rightarrow>
                  for_range [0..<nat k] (scanning_body duckiedata current_obj)
                    (car_control_msg, new_state)))"

subsection \<open>Approach\<close>

text \<open>
  The variables the loop of \<^verbatim>\<open>approach\<close> reads and writes, each field named after
  the Python variable with the prefix \<open>a_\<close>.
\<close>

record approach_vars =
  a_car_control_msg :: Twist2DStamped
  a_new_state :: State
  a_e :: pyfloat
  a_e_int :: pyfloat
  a_obj_ids :: "pyfloat list"
  a_no_det_count :: int
  a_close_count :: int
  a_v :: pyfloat

text \<open>
  The branch of the loop body taken for a detection whose id is \<^verbatim>\<open>current_obj\<close>
  (lines 60 to 93), given its \<open>r\<close> and \<open>theta\<close>. The controller is called with the
  function's arguments \<^verbatim>\<open>prev_e\<close> and \<^verbatim>\<open>prev_int\<close>, not with the values an
  earlier iteration left in \<^verbatim>\<open>e\<close> and \<^verbatim>\<open>e_int\<close>. The flag \<open>delivery\<close> stands for
  the test \<^verbatim>\<open>delivery is True\<close>.
\<close>

definition approach_match ::
  "pyfloat \<Rightarrow> pyfloat \<Rightarrow> pyfloat \<Rightarrow> pyfloat \<Rightarrow> bool \<Rightarrow> pyfloat \<Rightarrow> pyfloat \<Rightarrow> approach_vars
     \<Rightarrow> error + approach_vars" where
  "approach_match current_obj prev_e prev_int delta_t delivery r theta s =
     (let s = s\<lparr>a_obj_ids := a_obj_ids s @ [current_obj], a_no_det_count := 0\<rparr>;
          theta_r = Finite 0;
          gains = (HEADING_KP, HEADING_KI, HEADING_KD)
      in case PIDController (a_v s) theta_r theta prev_e prev_int delta_t gains of
           Inl err \<Rightarrow> Inl err
         | Inr (v, omega, e, e_int, e_der) \<Rightarrow>
             let s = s\<lparr>a_v := v, a_e := e, a_e_int := e_int\<rparr>;
                 r_0 = (if delivery then lit 0.2 else lit 0.16)
             in if fgt r (lit 0.25) then
                  Inr (s\<lparr>a_close_count := 0,
                         a_car_control_msg :=
                           (a_car_control_msg s)\<lparr>msg_v := v,
                              msg_omega := fmul omega OMEGA_SCALING\<rparr>\<rparr>)
                else if fle r (lit 0.25) \<and> fgt r r_0 then
                  Inr (s\<lparr>a_close_count := 0,
                         a_car_control_msg :=
                           (a_car_control_msg s)\<lparr>msg_v := fmul (lit 0.8) v,
                              msg_omega := fmul omega OMEGA_SCALING\<rparr>\<rparr>)
                else
                  let s = (if flt (fabs (fmul omega OMEGA_SCALING))
                                (fadd OMEGA_OFFSET (lit 0.065))
                           then s\<lparr>a_close_count := a_close_count s + 1\<rparr> else s);
                      s = s\<lparr>a_car_control_msg :=
                             (a_car_control_msg s)\<lparr>msg_v := Finite 0,
                                msg_omega := fmul omega OMEGA_SCALING\<rparr>\<rparr>
                  in Inr (if a_close_count s \<ge> 8
                          then s\<lparr>a_close_count := 0, a_new_state := CAPTURED\<rparr> else s))"

definition approach_body ::
  "pyfloat list \<Rightarrow> pyfloat \<Rightarrow> pyfloat \<Rightarrow> pyfloat \<Rightarrow> pyfloat \<Rightarrow> bool \<Rightarrow> nat \<Rightarrow> approach_vars
     \<Rightarrow> error + approach_vars" where
  "approach_body duckiedata current_obj prev_e prev_int delta_t delivery i s =
     (case getitem duckiedata (i * 3 + 3) of
        Inl err \<Rightarrow> Inl err
      | Inr ident \<Rightarrow>
          if feq ident current_obj then
            (case getitem duckiedata (i * 3 + 1) of
               Inl err \<Rightarrow> Inl err
             | Inr r \<Rightarrow>
                 (case getitem duckiedata (i * 3 + 2) of
                    Inl err \<Rightarrow> Inl err
                  | Inr theta \<Rightarrow>
                      approach_match current_obj prev_e prev_int delta_t delivery r theta s))
          else Inr s)"

definition approach ::
  "Twist2DStamped \<Rightarrow> State \<Rightarrow> pyfloat list \<Rightarrow> pyfloat \<Rightarrow> pyfloat \<Rightarrow> pyfloat \<Rightarrow> pyfloat
     \<Rightarrow> int \<Rightarrow> int \<Rightarrow> pyfloat \<Rightarrow> bool
     \<Rightarrow> error + (Twist2DStamped \<times> State \<times> pyfloat \<times> pyfloat \<times> int \<times> int)" where
  "approach car_control_msg new_state duckiedata current_obj prev_e prev_int delta_t
       no_det_count close_count v delivery =
     (let s = \<lparr>a_car_control_msg = car_control_msg, a_new_state = new_state,
               a_e = prev_e, a_e_int = prev_int, a_obj_ids = [],
               a_no_det_count = no_det_count, a_close_count = close_count, a_v = v\<rparr>
      in case getitem duckiedata 0 of
           Inl err \<Rightarrow> Inl err
         | Inr n \<Rightarrow>
             (case py_round n of
                Inl err \<Rightarrow> Inl err
              | Inr k \<Rightarrow>
                  (case for_range [0..<nat k]
                          (approach_body duckiedata current_obj prev_e prev_int delta_t delivery)
                          s of
                     Inl err \<Rightarrow> Inl err
                   | Inr s \<Rightarrow>
                       let s = (if \<not> py_in current_obj (a_obj_ids s) then
                                  let s = s\<lparr>a_no_det_count := a_no_det_count s + 1,
                                            a_car_control_msg :=
                                              (a_car_control_msg s)\<lparr>msg_v := Finite 0,
                                                 msg_omega := Finite 0\<rparr>\<rparr>
                                  in if a_no_det_count s \<ge> 4
                                     then s\<lparr>a_new_state := SCANNING, a_no_det_count := 0\<rparr>
                                     else s
                                else s)
                       in Inr (a_car_control_msg s, a_new_state s, a_e s, a_e_int s,
                               a_no_det_count s, a_close_count s))))"

definition delivered :: "Twist2DStamped \<Rightarrow> State \<Rightarrow> Twist2DStamped \<times> State" where
  "delivered car_control_msg new_state =
     (car_control_msg\<lparr>msg_v := Finite 0, msg_omega := Finite 0\<rparr>, new_state)"

subsection \<open>Reading a detection list\<close>

text \<open>
  The encoding \<open>[n, r\<^sub>0, theta\<^sub>0, id\<^sub>0, r\<^sub>1, theta\<^sub>1, id\<^sub>1, ...]\<close>: the number of
  detections the loops visit, the condition under which the count is a finite number
  and no index is out of range, and the \<open>(r, theta)\<close> of the detections of one
  object, in the order of the list.
\<close>

definition frame_count :: "pyfloat list \<Rightarrow> nat" where
  "frame_count duckiedata =
     (case duckiedata of Finite n # rest \<Rightarrow> nat (round_half_even n) | _ \<Rightarrow> 0)"

definition frame_ok :: "pyfloat list \<Rightarrow> bool" where
  "frame_ok duckiedata =
     (case duckiedata of
        Finite n # rest \<Rightarrow> 3 * nat (round_half_even n) + 1 \<le> length duckiedata
      | _ \<Rightarrow> False)"

definition target_ids :: "pyfloat list \<Rightarrow> pyfloat \<Rightarrow> nat \<Rightarrow> nat list" where
  "target_ids duckiedata current_obj n =
     filter (\<lambda>i. feq (duckiedata ! (i * 3 + 3)) current_obj) [0..<n]"

definition target_dets :: "pyfloat list \<Rightarrow> pyfloat \<Rightarrow> (pyfloat \<times> pyfloat) list" where
  "target_dets duckiedata current_obj =
     map (\<lambda>i. (duckiedata ! (i * 3 + 1), duckiedata ! (i * 3 + 2)))
       (target_ids duckiedata current_obj (frame_count duckiedata))"

subsection \<open>The capture rule, one detection of the target at a time\<close>

text \<open>
  The angular velocity the controller returns for a bearing, and the rule by which the
  detections of the target move the counter \<open>close_count\<close> and the state: a detection
  with \<open>r > r\<^sub>0\<close> resets the counter; any other increments it when the control action
  is small, and then captures, resetting the counter, when the counter has reached 8.
  \<open>capture_run\<close> applies the rule to the detections of the target in frame order.
  These definitions state the rule in the words of the capture claim as amended; they
  are not read off the loop of \<^verbatim>\<open>approach\<close>, which is compared with them below.
\<close>

definition pid_omega :: "pyfloat \<Rightarrow> pyfloat \<Rightarrow> pyfloat \<Rightarrow> pyfloat \<Rightarrow> pyfloat \<Rightarrow> pyfloat" where
  "pid_omega v theta prev_e prev_int delta_t =
     (case PIDController v (Finite 0) theta prev_e prev_int delta_t
             (HEADING_KP, HEADING_KI, HEADING_KD) of
        Inl err \<Rightarrow> NaN
      | Inr (v', omega, e, e_int, e_der) \<Rightarrow> omega)"

definition small_action :: "pyfloat \<Rightarrow> bool" where
  "small_action omega =
     flt (fabs (fmul omega OMEGA_SCALING)) (fadd OMEGA_OFFSET (lit 0.065))"

fun capture_rule :: "bool \<Rightarrow> State \<times> int \<Rightarrow> pyfloat \<times> pyfloat \<Rightarrow> State \<times> int" where
  "capture_rule delivery (st, cc) (r, omega) =
     (if fgt r (if delivery then lit 0.2 else lit 0.16) then (st, 0)
      else if 8 \<le> (if small_action omega then cc + 1 else cc) then (CAPTURED, 0)
      else (st, if small_action omega then cc + 1 else cc))"

definition capture_run ::
  "bool \<Rightarrow> pyfloat \<Rightarrow> pyfloat \<Rightarrow> pyfloat \<Rightarrow> pyfloat \<Rightarrow> State \<times> int
     \<Rightarrow> (pyfloat \<times> pyfloat) list \<Rightarrow> State \<times> int" where
  "capture_run delivery v prev_e prev_int delta_t sc dets =
     foldl (capture_rule delivery) sc
       (map (\<lambda>(r, theta). (r, pid_omega v theta prev_e prev_int delta_t)) dets)"

subsection \<open>Successive frames\<close>

text \<open>
  Modelled from the spec: the frame handler that calls \<^verbatim>\<open>approach\<close> is not among the
  sources. Following the spec (the state machine owns the control state, the PID state
  and the two counters, and handles detection frames strictly in arrival order), each
  call receives the state, \<open>e\<close>, \<open>e_int\<close>, \<open>no_det_count\<close> and \<open>close_count\<close>
  the previous call returned. A frame is a message to fill, a detection list and the
  time step; the result lists what every call returned.
\<close>

type_synonym approach_ctx = "State \<times> pyfloat \<times> pyfloat \<times> int \<times> int"

type_synonym approach_frame = "Twist2DStamped \<times> pyfloat list \<times> pyfloat"

fun approach_frames ::
  "pyfloat \<Rightarrow> pyfloat \<Rightarrow> bool \<Rightarrow> approach_ctx \<Rightarrow> approach_frame list
     \<Rightarrow> error + (Twist2DStamped \<times> approach_ctx) list" where
  "approach_frames current_obj v delivery ctx [] = Inr []"
| "approach_frames current_obj v delivery ctx (f # fs) =
     (case (ctx, f) of
        ((new_state, prev_e, prev_int, no_det_count, close_count),
         (car_control_msg, duckiedata, delta_t)) \<Rightarrow>
          (case approach car_control_msg new_state duckiedata current_obj prev_e prev_int
                  delta_t no_det_count close_count v delivery of
             Inl err \<Rightarrow> Inl err
           | Inr (msg', ctx') \<Rightarrow>
               (case approach_frames current_obj v delivery ctx' fs of
                  Inl err \<Rightarrow> Inl err
                | Inr outs \<Rightarrow> Inr ((msg', ctx') # outs))))"

definition out_state :: "Twist2DStamped \<times> approach_ctx \<Rightarrow> State" where
  "out_state out = (case out of (msg, new_state, e, e_int, no_det_count, close_count) \<Rightarrow> new_state)"

definition out_no_det_count :: "Twist2DStamped \<times> approach_ctx \<Rightarrow> int" where
  "out_no_det_count out =
     (case out of (msg, new_state, e, e_int, no_det_count, close_count) \<Rightarrow> no_det_count)"

definition no_target :: "pyfloat \<Rightarrow> approach_frame \<Rightarrow> bool" where
  "no_target current_obj f =
     (case f of (car_control_msg, duckiedata, delta_t) \<Rightarrow> target_dets duckiedata current_obj = [])"

definition frame_valid :: "approach_frame \<Rightarrow> bool" where
  "frame_valid f = (case f of (car_control_msg, duckiedata, delta_t) \<Rightarrow>
                      frame_ok duckiedata \<and> delta_t \<noteq> Finite 0)"

text \<open>The number of frames without the target at the end of a sequence of frames.\<close>

definition trailing_no_target :: "pyfloat \<Rightarrow> approach_frame list \<Rightarrow> nat" where
  "trailing_no_target current_obj fs = length (takeWhile (no_target current_obj) (rev fs))"

subsection \<open>The object detection node\<close>

text \<open>
  The functions of the module \<^verbatim>\<open>integration_activity\<close>, which is not among the
  sources, are parameters: the number of frames to skip and the three filters.
\<close>

record integration_activity =
  NUMBER_FRAMES_SKIPPED :: int
  filter_by_classes :: "int \<Rightarrow> bool"
  filter_by_bboxes :: "pyfloat list \<Rightarrow> bool"
  filter_by_scores :: "pyfloat \<Rightarrow> bool"

text \<open>The attributes of the node that the callbacks read or write.\<close>

record ObjectDetectionNode =
  initialized :: bool
  avoid_duckies :: bool
  self_v :: pyfloat
  frame_id :: int

definition init_node :: ObjectDetectionNode where
  "init_node = \<lparr>initialized = True, avoid_duckies = False, self_v = lit 0.04, frame_id = 0\<rparr>"

text \<open>
  A camera message: its header and what decoding, resizing and the model wrapper make
  of it: \<open>None\<close> when \<^verbatim>\<open>compressed_imgmsg_to_cv2\<close> raises \<^verbatim>\<open>ValueError\<close>, the
  predicted boxes, classes and scores otherwise.
\<close>

record CompressedImage =
  image_header :: nat
  image_predict :: "(pyfloat list list \<times> int list \<times> pyfloat list) option"

text \<open>\<^verbatim>\<open>np.array(list(map(f, xs))).nonzero()[0]\<close>: the indices at which \<open>f\<close> holds.\<close>

definition nonzero_ids :: "('a \<Rightarrow> bool) \<Rightarrow> 'a list \<Rightarrow> nat list" where
  "nonzero_ids f xs = filter (\<lambda>i. f (xs ! i)) [0..<length xs]"

definition det2bool ::
  "integration_activity \<Rightarrow> pyfloat list list \<Rightarrow> int list \<Rightarrow> pyfloat list \<Rightarrow> bool" where
  "det2bool ia bboxes classes scores =
     (let box_ids = nonzero_ids (filter_by_bboxes ia) bboxes;
          cla_ids = nonzero_ids (filter_by_classes ia) classes;
          sco_ids = nonzero_ids (filter_by_scores ia) scores;
          box_cla_ids = set box_ids \<inter> set cla_ids;
          box_cla_sco_ids = set sco_ids \<inter> box_cla_ids
      in if card box_cla_sco_ids > 0 then True else False)"

text \<open>\<^verbatim>\<open>pub_car_commands\<close> builds one message and publishes it: the result is that message.\<close>

definition pub_car_commands :: "ObjectDetectionNode \<Rightarrow> bool \<Rightarrow> nat \<Rightarrow> Twist2DStamped" where
  "pub_car_commands self stop header =
     \<lparr>msg_header = header, msg_v = (if stop then Finite 0 else self_v self),
      msg_omega = Finite 0\<rparr>"

text \<open>
  A callback returns the node as it leaves it, the commands it published on the car
  command topic, in order, and the exception that ended it, if one did.
\<close>

type_synonym outcome = "ObjectDetectionNode \<times> Twist2DStamped list \<times> error option"

definition cb_episode_start :: "ObjectDetectionNode \<Rightarrow> nat \<Rightarrow> outcome" where
  "cb_episode_start self header =
     (let self = self\<lparr>avoid_duckies := False\<rparr>
      in (self, [pub_car_commands self True header], None))"

text \<open>
  \<^verbatim>\<open>image_cb\<close>. The debug drawing after the command (\<^verbatim>\<open>self._debug\<close> is set to
  \<^verbatim>\<open>False\<close> and never changed) publishes on another topic and is left out.
\<close>

definition image_cb :: "integration_activity \<Rightarrow> ObjectDetectionNode \<Rightarrow> CompressedImage \<Rightarrow> outcome" where
  "image_cb ia self image_msg =
     (if \<not> initialized self then
        (self, [pub_car_commands self True (image_header image_msg)], None)
      else
        let self = self\<lparr>frame_id := frame_id self + 1\<rparr>
        in if 1 + NUMBER_FRAMES_SKIPPED ia = 0 then (self, [], Some ZeroDivisionError)
           else
             let self = self\<lparr>frame_id := frame_id self mod (1 + NUMBER_FRAMES_SKIPPED ia)\<rparr>
             in if frame_id self \<noteq> 0 then
                  (self, [pub_car_commands self (avoid_duckies self) (image_header image_msg)], None)
                else
                  (case image_predict image_msg of
                     None \<Rightarrow> (self, [], None)
                   | Some (bboxes, classes, scores) \<Rightarrow>
                       let detection = det2bool ia bboxes classes scores;
                           self = (if detection then self\<lparr>avoid_duckies := True\<rparr> else self)
                       in (self,
                           [pub_car_commands self (avoid_duckies self) (image_header image_msg)],
                           None)))"

definition on_shutdown :: "ObjectDetectionNode \<Rightarrow> outcome" where
  "on_shutdown self =
     (self, [\<lparr>msg_header = 0, msg_v = Finite 0, msg_omega = Finite 0\<rparr>], None)"

text \<open>
  The events the node answers, and a run of the node over a sequence of events, one
  callback at a time: the node at the end and every command published, in order. An
  exception ends its callback only; the node goes on with what the callback had written.
\<close>

datatype event = EpisodeStart nat | Image CompressedImage | Shutdown

fun is_episode_start :: "event \<Rightarrow> bool" where
  "is_episode_start (EpisodeStart header) = True"
| "is_episode_start (Image image_msg) = False"
| "is_episode_start Shutdown = False"

fun callback :: "integration_activity \<Rightarrow> ObjectDetectionNode \<Rightarrow> event \<Rightarrow> outcome" where
  "callback ia self (EpisodeStart header) = cb_episode_start self header"
| "callback ia self (Image image_msg) = image_cb ia self image_msg"
| "callback ia self Shutdown = on_shutdown self"

fun run :: "integration_activity \<Rightarrow> ObjectDetectionNode \<Rightarrow> event list
              \<Rightarrow> ObjectDetectionNode \<times> Twist2DStamped list" where
  "run ia self [] = (self, [])"
| "run ia self (ev # evs) =
     (case callback ia self ev of
        (self', cmds, err) \<Rightarrow>
          (case run ia self' evs of (self'', cmds') \<Rightarrow> (self'', cmds @ cmds')))"

subsection \<open>Sample inputs\<close>

text \<open>
  A command message with every field zero, and one choice of the functions of
  \<^verbatim>\<open>integration_activity\<close>: every second frame is processed, class 0 counts, a box
  counts when it has four coordinates, a score counts above one half.
\<close>

definition msg0 :: Twist2DStamped where
  "msg0 = \<lparr>msg_header = 0, msg_v = Finite 0, msg_omega = Finite 0\<rparr>"

definition ia0 :: integration_activity where
  "ia0 = \<lparr>NUMBER_FRAMES_SKIPPED = 1, filter_by_classes = (\<lambda>c. c = 0),
           filter_by_bboxes = (\<lambda>b. length b = 4),
           filter_by_scores = (\<lambda>s. fgt s (Finite (1 / 2)))\<rparr>"

section \<open>Binary64 arithmetic\<close>

lemma round_double_not_NaN [simp]: "round_double x \<noteq> NaN"
  by (simp add: round_double_def Let_def)

lemma round_double_0 [simp]: "round_double 0 = Finite 0"
  by (simp add: round_double_def)

lemma round_double_pos:
  assumes "0 < x" "expo x = e" "round_half_even (x / two_to (e - 52)) = n"
    "of_int n * two_to (e - 52) < (2::real) ^ 1024"
  shows "round_double x = Finite (of_int n * two_to (e - 52))"
  using assms by (simp add: round_double_def round_at_def Let_def)

lemma round_double_minus: "round_double (- x) = fneg (round_double x)"
  by (simp add: round_double_def Let_def)

lemmas round_eval = expo_def exp_up.simps exp_down.simps two_to_def round_half_even_def Let_def

text \<open>The argument of a literal is left as the source writes it.\<close>

lemma lit_cong [cong]: "lit x = lit x"
  by (rule refl)

lemma lit_not_NaN [simp]: "lit x \<noteq> NaN"
  by (simp add: lit_def)

lemma fadd_NaN_right [simp]: "fadd a NaN = NaN"
  by (cases a) simp_all

lemma fmul_NaN_right [simp]: "fmul a NaN = NaN"
  by (cases a) simp_all




lemma flt_irrefl [simp]: "\<not> flt a a"
  by (cases a) simp_all

lemma flt_NaN_right [simp]: "\<not> flt a NaN"
  by (cases a) simp_all

lemma flt_trans: "flt a b \<Longrightarrow> flt b c \<Longrightarrow> flt a c"
  by (cases a; cases b; cases c) simp_all

lemma flt_total: "a \<noteq> NaN \<Longrightarrow> b \<noteq> NaN \<Longrightarrow> flt a b \<or> a = b \<or> flt b a"
  by (cases a; cases b) auto

lemma flt_not_NaN: "flt a b \<Longrightarrow> a \<noteq> NaN \<and> b \<noteq> NaN"
  by (cases a; cases b) simp_all

lemma fle_iff_not_flt: "a \<noteq> NaN \<Longrightarrow> b \<noteq> NaN \<Longrightarrow> fle a b = (\<not> flt b a)"
  by (cases a; cases b) (auto simp: fle_def feq_def)

lemma feq_right_refl: "feq a b \<Longrightarrow> feq b b"
  by (auto simp: feq_def)

text \<open>
  The decimal literals of the sources as binary64 numbers, each a fraction in lowest
  terms.
\<close>

lemma lit_025: "lit 0.25 = Finite (1 / 4)"
  unfolding lit_def using round_double_pos [of "0.25" "- 2" 4503599627370496]
  by (simp add: round_eval)

lemma lit_04: "lit 0.4 = Finite (3602879701896397 / 9007199254740992)"
  unfolding lit_def using round_double_pos [of "0.4" "- 2" 7205759403792794]
  by (simp add: round_eval)

lemma lit_0027: "lit 0.027 = Finite (7782220156096217 / 288230376151711744)"
  unfolding lit_def using round_double_pos [of "0.027" "- 6" 7782220156096217]
  by (simp add: round_eval)

lemma lit_004: "lit 0.04 = Finite (5764607523034235 / 144115188075855872)"
  unfolding lit_def using round_double_pos [of "0.04" "- 5" 5764607523034235]
  by (simp add: round_eval)

lemma lit_01: "lit 0.1 = Finite (3602879701896397 / 36028797018963968)"
  unfolding lit_def using round_double_pos [of "0.1" "- 4" 7205759403792794]
  by (simp add: round_eval)

lemma lit_0065: "lit 0.065 = Finite (1170935903116329 / 18014398509481984)"
  unfolding lit_def using round_double_pos [of "0.065" "- 4" 4683743612465316]
  by (simp add: round_eval)

lemma lit_02: "lit 0.2 = Finite (3602879701896397 / 18014398509481984)"
  unfolding lit_def using round_double_pos [of "0.2" "- 3" 7205759403792794]
  by (simp add: round_eval)

lemma lit_016: "lit 0.16 = Finite (5764607523034235 / 36028797018963968)"
  unfolding lit_def using round_double_pos [of "0.16" "- 3" 5764607523034235]
  by (simp add: round_eval)

lemma lit_08: "lit 0.8 = Finite (3602879701896397 / 4503599627370496)"
  unfolding lit_def using round_double_pos [of "0.8" "- 1" 7205759403792794]
  by (simp add: round_eval)

lemma lit_002: "lit 0.02 = Finite (5764607523034235 / 288230376151711744)"
  unfolding lit_def using round_double_pos [of "0.02" "- 6" 5764607523034235]
  by (simp add: round_eval)

lemma lit_03: "lit 0.3 = Finite (5404319552844595 / 18014398509481984)"
  unfolding lit_def using round_double_pos [of "0.3" "- 2" 5404319552844595]
  by (simp add: round_eval)

lemmas lits = lit_025 lit_04 lit_0027 lit_004 lit_01 lit_0065 lit_02 lit_016 lit_08 lit_002 lit_03

lemma round_offset_sum: "round_double (5944751508129055 / 36028797018963968) = Finite (5944751508129055 / 36028797018963968)"
  using round_double_pos [of "(5944751508129055 / 36028797018963968)" "- 3" 5944751508129055]
  by (simp add: round_eval)

lemma round_offset: "round_double (3602879701896397 / 36028797018963968) = Finite (3602879701896397 / 36028797018963968)"
  using round_double_pos [of "(3602879701896397 / 36028797018963968)" "- 4" 7205759403792794]
  by (simp add: round_eval)

lemma round_offset_minus: "round_double (- (3602879701896397 / 36028797018963968)) = Finite (- (3602879701896397 / 36028797018963968))"
  using round_double_pos [of "(3602879701896397 / 36028797018963968)" "- 4" 7205759403792794] round_double_minus [of "(3602879701896397 / 36028797018963968)"]
  by (simp add: round_eval)

lemma band_order:
  "flt (lit 0.2) (lit 0.25)" "flt (lit 0.16) (lit 0.25)" "flt (lit 0.16) (lit 0.2)"
  by (simp_all add: lits)

text \<open>
  The anti-windup of the source, \<^verbatim>\<open>max(min(x, INT_MAX), -INT_MAX)\<close>, is the clamp
  of \<open>x\<close> between the two bounds, NaN included.
\<close>

lemma max_min_clamp:
  "py_max (py_min x INT_MAX) (fneg INT_MAX) = clamp x (fneg (lit 0.04)) (lit 0.04)"
  by (cases x) (simp_all add: py_max_def py_min_def clamp_def fgt_def INT_MAX_def lits)



text \<open>
  Adding the offset to a positive sum and subtracting it from a negative one is adding
  the sign of the sum times the offset.
\<close>

lemma sign_offset:
  "(if fgt w (Finite 0) then fadd w OMEGA_OFFSET
    else if flt w (Finite 0) then fsub w OMEGA_OFFSET else w) =
   fadd w (fmul (Finite (fsign w)) (lit 0.1))"
proof (cases w)
  case (Finite x)
  consider "0 < x" | "x < 0" | "x = 0" by arith
  then show ?thesis
  proof cases
    case 1
    with Finite show ?thesis
      by (simp add: fgt_def OMEGA_OFFSET_def lits round_offset)
  next
    case 2
    with Finite show ?thesis
      by (simp add: fgt_def fsub_def OMEGA_OFFSET_def lits round_offset_minus)
  next
    case 3
    with Finite show ?thesis
      by (simp add: fgt_def lits)
  qed
next
  case PInf
  then show ?thesis by (simp add: fgt_def OMEGA_OFFSET_def lits round_offset)
next
  case NInf
  then show ?thesis
    by (simp add: fgt_def fsub_def OMEGA_OFFSET_def lits round_offset_minus)
next
  case NaN
  then show ?thesis by (simp add: fgt_def)
qed

section \<open>Properties of the PID controller\<close>

lemma fdiv_total: "delta_t \<noteq> Finite 0 \<Longrightarrow> \<exists>q. fdiv a delta_t = Inr q"
  by (cases delta_t; cases a) simp_all

lemma fdiv_Inr: "fdiv a delta_t = Inr q \<Longrightarrow> delta_t \<noteq> Finite 0"
  by (cases delta_t) (auto split: if_splits)

lemma PIDController_unfold:
  assumes "fdiv (fsub (fsub theta_ref theta_hat) prev_e) delta_t = Inr e_der"
  shows "PIDController v_0 theta_ref theta_hat prev_e prev_int delta_t (Kp, Ki, Kd) =
           Inr (v_0,
                fadd (fadd (fadd (fmul Kp (fsub theta_ref theta_hat))
                              (fmul Ki (clamp (fadd prev_int (fmul (fsub theta_ref theta_hat) delta_t))
                                          (fneg (lit 0.04)) (lit 0.04))))
                        (fmul Kd e_der))
                  (fmul (Finite (fsign (fadd (fadd (fmul Kp (fsub theta_ref theta_hat))
                              (fmul Ki (clamp (fadd prev_int (fmul (fsub theta_ref theta_hat) delta_t))
                                          (fneg (lit 0.04)) (lit 0.04))))
                        (fmul Kd e_der)))) (lit 0.1)),
                fsub theta_ref theta_hat,
                clamp (fadd prev_int (fmul (fsub theta_ref theta_hat) delta_t))
                  (fneg (lit 0.04)) (lit 0.04),
                e_der)"
  using assms
  by (simp only: PIDController_def Let_def max_min_clamp sign_offset sum.case prod.case)

lemma PIDController_Inr:
  assumes "PIDController v_0 theta_ref theta_hat prev_e prev_int delta_t gains =
             Inr (v_out, omega, e_out, e_int_out, e_der_out)"
  shows "v_out = v_0 \<and> delta_t \<noteq> Finite 0"
proof -
  obtain Kp Ki Kd where g: "gains = (Kp, Ki, Kd)" by (cases gains) auto
  from assms obtain q where q: "fdiv (fsub (fsub theta_ref theta_hat) prev_e) delta_t = Inr q"
    by (auto simp: PIDController_def Let_def split: sum.splits)
  from PIDController_unfold [OF q] assms g fdiv_Inr [OF q] show ?thesis by simp
qed

lemma PIDController_total:
  assumes "delta_t \<noteq> Finite 0"
  shows "\<exists>omega e_out e_der_out.
           PIDController v_0 theta_ref theta_hat prev_e prev_int delta_t gains =
             Inr (v_0, omega, e_out,
                  clamp (fadd prev_int (fmul (fsub theta_ref theta_hat) delta_t))
                    (fneg (lit 0.04)) (lit 0.04),
                  e_der_out)"
proof -
  obtain Kp Ki Kd where g: "gains = (Kp, Ki, Kd)" by (cases gains) auto
  from fdiv_total [OF assms] obtain q
    where q: "fdiv (fsub (fsub theta_ref theta_hat) prev_e) delta_t = Inr q"
    by blast
  from PIDController_unfold [OF q] g show ?thesis by blast
qed





text \<open>
  C2. For every call with \<open>delta_t > 0\<close> the controller returns exactly
  \<open>(v0, omega, e, e_int, e_der)\<close> with \<open>e = theta_ref - theta_hat\<close>,
  \<open>e_int\<close> the sum \<open>prev_int + e * delta_t\<close> clamped to \<open>[-0.04, 0.04]\<close>,
  \<open>e_der = (e - prev_e) / delta_t\<close>, a division that does not raise, and \<open>omega\<close>
  the weighted sum \<open>Kp * e + Ki * e_int + Kd * e_der\<close> plus the sign of that sum times
  the offset 0.1 (so nothing is added when the sum is zero), every operation being the
  binary64 one, in the order of the source. \<open>v0\<close> comes back unchanged, and the
  function, having no state, changes none.
\<close>

theorem PIDController_result:
  assumes "fgt delta_t (Finite 0)"
  shows "\<exists>e_der w.
           fdiv (fsub (fsub theta_ref theta_hat) prev_e) delta_t = Inr e_der
           \<and> w = fadd (fadd (fmul Kp (fsub theta_ref theta_hat))
                         (fmul Ki (clamp (fadd prev_int (fmul (fsub theta_ref theta_hat) delta_t))
                                     (fneg (lit 0.04)) (lit 0.04))))
                   (fmul Kd e_der)
           \<and> PIDController v0 theta_ref theta_hat prev_e prev_int delta_t (Kp, Ki, Kd) =
               Inr (v0,
                    fadd w (fmul (Finite (fsign w)) (lit 0.1)),
                    fsub theta_ref theta_hat,
                    clamp (fadd prev_int (fmul (fsub theta_ref theta_hat) delta_t))
                      (fneg (lit 0.04)) (lit 0.04),
                    e_der)"
proof -
  from assms have "delta_t \<noteq> Finite 0" by (auto simp: fgt_def)
  from fdiv_total [OF this] obtain q
    where q: "fdiv (fsub (fsub theta_ref theta_hat) prev_e) delta_t = Inr q"
    by blast
  from PIDController_unfold [OF q] q show ?thesis by blast
qed

theorem PIDController_result_witness:
  "fgt (Finite 1) (Finite 0)
   \<and> PIDController (lit 0.02) (Finite 0) (lit 0.041) (fneg (lit 0.791)) (lit 0.016) (Finite 1)
        (HEADING_KP, HEADING_KI, HEADING_KD) =
       Inr (lit 0.02, fneg (lit 0.1), fneg (lit 0.041), fneg (lit 0.025), Finite (3 / 4))"
proof -
  have la: "lit 0.041 = Finite (5908722711110091 / 144115188075855872)"
    unfolding lit_def using round_double_pos [of "0.041" "- 5" 5908722711110091]
    by (simp add: round_eval)
  have lb: "lit 0.791 = Finite (7124694610500125 / 9007199254740992)"
    unfolding lit_def using round_double_pos [of "0.791" "- 1" 7124694610500125]
    by (simp add: round_eval)
  have lc: "lit 0.016 = Finite (1152921504606847 / 72057594037927936)"
    unfolding lit_def using round_double_pos [of "0.016" "- 6" 4611686018427388]
    by (simp add: round_eval)
  have ld: "lit 0.025 = Finite (3602879701896397 / 144115188075855872)"
    unfolding lit_def using round_double_pos [of "0.025" "- 6" 7205759403792794]
    by (simp add: round_eval)
  have rd0: "round_double (- (5908722711110091 / 144115188075855872)) = Finite (- (5908722711110091 / 144115188075855872))"
    using round_double_pos [of "(5908722711110091 / 144115188075855872)" "- 5" 5908722711110091] round_double_minus [of "(5908722711110091 / 144115188075855872)"]
    by (simp add: round_eval)
  have rd1: "round_double (- (3602879701896397 / 144115188075855872)) = Finite (- (3602879701896397 / 144115188075855872))"
    using round_double_pos [of "(3602879701896397 / 144115188075855872)" "- 6" 7205759403792794] round_double_minus [of "(3602879701896397 / 144115188075855872)"]
    by (simp add: round_eval)
  have rd2: "round_double (108086391056891909 / 144115188075855872) = Finite (3 / 4)"
    using round_double_pos [of "(108086391056891909 / 144115188075855872)" "- 1" 6755399441055744]
    by (simp add: round_eval)
  have rd3: "round_double (3 / 4) = Finite (3 / 4)"
    using round_double_pos [of "(3 / 4)" "- 1" 6755399441055744]
    by (simp add: round_eval)
  have rd4: "round_double (- (5908722711110091 / 576460752303423488)) = Finite (- (5908722711110091 / 576460752303423488))"
    using round_double_pos [of "(5908722711110091 / 576460752303423488)" "- 7" 5908722711110091] round_double_minus [of "(5908722711110091 / 576460752303423488)"]
    by (simp add: round_eval)
  have rd5: "round_double (- (12980742146337070512478121581609 / 1298074214633706907132624082305024)) = Finite (- (1441151880758559 / 144115188075855872))"
    using round_double_pos [of "(12980742146337070512478121581609 / 1298074214633706907132624082305024)" "- 7" 5764607523034236] round_double_minus [of "(12980742146337070512478121581609 / 1298074214633706907132624082305024)"]
    by (simp add: round_eval)
  have rd6: "round_double (- (11673330234144327 / 576460752303423488)) = Finite (- (1459166279268041 / 72057594037927936))"
    using round_double_pos [of "(11673330234144327 / 576460752303423488)" "- 6" 5836665117072164] round_double_minus [of "(11673330234144327 / 576460752303423488)"]
    by (simp add: round_eval)
  have rd7: "round_double (23346660468288651 / 1152921504606846976) = Finite (5836665117072163 / 288230376151711744)"
    using round_double_pos [of "(23346660468288651 / 1152921504606846976)" "- 6" 5836665117072163]
    by (simp add: round_eval)
  have rd8: "round_double (- (1 / 288230376151711744)) = Finite (- (1 / 288230376151711744))"
    using round_double_pos [of "(1 / 288230376151711744)" "- 58" 4503599627370496] round_double_minus [of "(1 / 288230376151711744)"]
    by (simp add: round_eval)
  have rd9: "round_double (- (3602879701896397 / 36028797018963968)) = Finite (- (3602879701896397 / 36028797018963968))"
    using round_double_pos [of "(3602879701896397 / 36028797018963968)" "- 4" 7205759403792794] round_double_minus [of "(3602879701896397 / 36028797018963968)"]
    by (simp add: round_eval)
  have rd10: "round_double (- (28823037615171177 / 288230376151711744)) = Finite (- (3602879701896397 / 36028797018963968))"
    using round_double_pos [of "(28823037615171177 / 288230376151711744)" "- 4" 7205759403792794] round_double_minus [of "(28823037615171177 / 288230376151711744)"]
    by (simp add: round_eval)
  from PIDController_result [of "Finite 1" "Finite 0" "lit 0.041" "fneg (lit 0.791)"
      HEADING_KP HEADING_KI "lit 0.016" HEADING_KD "lit 0.02"]
  show ?thesis
    by (simp add: HEADING_KP_def HEADING_KI_def HEADING_KD_def lits la lb lc ld fsub_def
        clamp_def fgt_def rd0 rd1 rd2 rd3 rd4 rd5 rd6 rd7 rd8 rd9 rd10)
qed




section \<open>The loops over a detection list\<close>

lemma for_range_append:
  "for_range (xs @ ys) body s =
     (case for_range xs body s of Inl err \<Rightarrow> Inl err | Inr s' \<Rightarrow> for_range ys body s')"
  by (induction xs arbitrary: s) (auto split: sum.splits)

lemma for_range_filter:
  assumes "\<And>i s. i \<in> set xs \<Longrightarrow> \<not> P i \<Longrightarrow> body i s = Inr s"
  shows "for_range xs body s = for_range (filter P xs) body s"
  using assms
proof (induction xs arbitrary: s)
  case Nil
  show ?case by simp
next
  case (Cons i xs)
  have rest: "for_range xs body t = for_range (filter P xs) body t" for t
    using Cons.prems by (intro Cons.IH) auto
  show ?case
  proof (cases "P i")
    case True
    then show ?thesis by (simp add: rest split: sum.splits)
  next
    case False
    then have "body i s = Inr s" using Cons.prems by simp
    with False show ?thesis by (simp add: rest)
  qed
qed

lemma getitem_in_range: "i < length xs \<Longrightarrow> getitem xs i = Inr (xs ! i)"
  by (simp add: getitem_def)

lemma frame_head:
  assumes "frame_ok d"
  shows "\<exists>n. getitem d 0 = Inr (Finite n) \<and> py_round (Finite n) = Inr (round_half_even n)
           \<and> nat (round_half_even n) = frame_count d"
proof (cases d)
  case Nil
  with assms show ?thesis by (simp add: frame_ok_def)
next
  case (Cons a rest)
  with assms show ?thesis
    by (cases a) (simp_all add: frame_ok_def frame_count_def getitem_def)
qed

lemma frame_index:
  assumes "frame_ok d" "i < frame_count d"
  shows "i * 3 + 3 < length d"
proof (cases d)
  case Nil
  with assms show ?thesis by (simp add: frame_ok_def)
next
  case (Cons a rest)
  with assms show ?thesis
    by (cases a) (simp_all add: frame_ok_def frame_count_def)
qed

lemma approach_body_in_range:
  assumes "frame_ok d" "i < frame_count d"
  shows "approach_body d cur pe pint dt del i s =
           (if feq (d ! (i * 3 + 3)) cur
            then approach_match cur pe pint dt del (d ! (i * 3 + 1)) (d ! (i * 3 + 2)) s
            else Inr s)"
  using frame_index [OF assms] by (simp add: approach_body_def getitem_in_range)

lemma approach_loop_targets:
  assumes "frame_ok d"
  shows "for_range [0..<frame_count d] (approach_body d cur pe pint dt del) s =
           for_range (target_ids d cur (frame_count d)) (approach_body d cur pe pint dt del) s"
  unfolding target_ids_def
  by (rule for_range_filter) (simp add: approach_body_in_range [OF assms])

lemma target_dets_Nil: "target_dets d cur = [] \<longleftrightarrow> target_ids d cur (frame_count d) = []"
  by (simp add: target_dets_def)

lemma approach_no_target:
  assumes "frame_ok d" "target_dets d cur = []"
  shows "approach msg st d cur pe pint dt nd cc v del =
           Inr (msg\<lparr>msg_v := Finite 0, msg_omega := Finite 0\<rparr>,
                (if nd + 1 \<ge> 4 then SCANNING else st), pe, pint,
                (if nd + 1 \<ge> 4 then 0 else nd + 1), cc)"
proof -
  from assms(2) have none: "target_ids d cur (frame_count d) = []"
    by (simp add: target_dets_Nil)
  from frame_head [OF assms(1)] obtain n
    where "getitem d 0 = Inr (Finite n)" "py_round (Finite n) = Inr (round_half_even n)"
      "nat (round_half_even n) = frame_count d"
    by blast
  then show ?thesis
    by (simp add: approach_def approach_loop_targets [OF assms(1)] none Let_def py_in_def)
qed

text \<open>
  The three tests of the range in the source come to two: above 0.25, and above \<open>r\<^sub>0\<close>.
\<close>

lemma band_above:
  assumes "fgt r (lit 0.25)"
  shows "fgt r (if del then lit 0.2 else lit 0.16)"
  using assms band_order(1,2) by (auto simp: fgt_def intro: flt_trans)

lemma band_middle:
  assumes "\<not> fgt r (lit 0.25)"
  shows "(fle r (lit 0.25) \<and> fgt r (if del then lit 0.2 else lit 0.16)) =
           fgt r (if del then lit 0.2 else lit 0.16)"
proof (cases "r = NaN")
  case True
  then show ?thesis by (simp add: fgt_def)
next
  case False
  from fle_iff_not_flt [OF False, of "lit 0.25"] assms show ?thesis
    by (simp add: fgt_def)
qed

lemma approach_match_result:
  assumes "PIDController (a_v s) (Finite 0) theta pe pint dt (HEADING_KP, HEADING_KI, HEADING_KD) =
             Inr (v_out, omega, e_out, e_int_out, e_der_out)"
  shows "\<exists>s'. approach_match cur pe pint dt del r theta s = Inr s'
           \<and> a_v s' = a_v s \<and> a_e s' = e_out \<and> a_e_int s' = e_int_out
           \<and> a_obj_ids s' = a_obj_ids s @ [cur] \<and> a_no_det_count s' = 0
           \<and> msg_header (a_car_control_msg s') = msg_header (a_car_control_msg s)
           \<and> msg_omega (a_car_control_msg s') = fmul omega OMEGA_SCALING
           \<and> msg_v (a_car_control_msg s') =
               (if fgt r (lit 0.25) then a_v s
                else if fgt r (if del then lit 0.2 else lit 0.16) then fmul (lit 0.8) (a_v s)
                else Finite 0)
           \<and> (a_new_state s', a_close_count s') =
               capture_rule del (a_new_state s, a_close_count s) (r, omega)"
proof -
  from PIDController_Inr [OF assms] have v: "v_out = a_v s" by simp
  show ?thesis
  proof (cases "fgt r (lit 0.25)")
    case True
    from band_above [OF True, of del] True assms v show ?thesis
      by (simp add: approach_match_def Let_def)
  next
    case False
    from band_middle [OF False, of del] False assms v show ?thesis
      by (simp add: approach_match_def Let_def small_action_def)
  qed
qed

lemma target_ids_in_range:
  "k \<in> set (target_ids d cur n) \<Longrightarrow> k < n \<and> feq (d ! (k * 3 + 3)) cur"
  by (auto simp: target_ids_def)

lemma approach_body_target:
  assumes "frame_ok d" "k \<in> set (target_ids d cur (frame_count d))"
  shows "approach_body d cur pe pint dt del k s =
           approach_match cur pe pint dt del (d ! (k * 3 + 1)) (d ! (k * 3 + 2)) s"
  using target_ids_in_range [OF assms(2)] approach_body_in_range [OF assms(1)] by simp

lemma pid_omega_Inr:
  assumes "PIDController v (Finite 0) theta pe pint dt (HEADING_KP, HEADING_KI, HEADING_KD) =
             Inr (v_out, omega, e_out, e_int_out, e_der_out)"
  shows "pid_omega v theta pe pint dt = omega"
  using assms by (simp add: pid_omega_def)

lemma capture_run_Nil: "capture_run del v pe pint dt sc [] = sc"
  by (simp add: capture_run_def)

lemma capture_run_Cons:
  "capture_run del v pe pint dt sc ((r, theta) # dets) =
     capture_run del v pe pint dt (capture_rule del sc (r, pid_omega v theta pe pint dt)) dets"
  by (simp add: capture_run_def)

lemma capture_run_state:
  "fst (capture_run del v pe pint dt (st, cc) dets) = st
   \<or> fst (capture_run del v pe pint dt (st, cc) dets) = CAPTURED"
proof (induction dets arbitrary: st cc)
  case Nil
  show ?case by (simp add: capture_run_Nil)
next
  case (Cons x dets)
  obtain r theta where x: "x = (r, theta)" by (cases x) auto
  obtain st' cc' where step: "capture_rule del (st, cc) (r, pid_omega v theta pe pint dt) = (st', cc')"
    by (cases "capture_rule del (st, cc) (r, pid_omega v theta pe pint dt)") auto
  then have "st' = st \<or> st' = CAPTURED" by (auto split: if_splits)
  with Cons.IH [of st' cc'] step x show ?case
    by (auto simp: capture_run_Cons)
qed

text \<open>
  The loop over the detections of the target: every controller call returns, the speed
  is kept, the state and \<open>close_count\<close> follow the capture rule, and the command takes
  its linear velocity from the range of the last detection.
\<close>

lemma approach_targets:
  assumes ok: "frame_ok d" and dt: "dt \<noteq> Finite 0"
    and sub: "set ks \<subseteq> set (target_ids d cur (frame_count d))"
  shows "\<exists>s'. for_range ks (approach_body d cur pe pint dt del) s = Inr s'
           \<and> a_v s' = a_v s
           \<and> (a_new_state s', a_close_count s') =
               capture_run del (a_v s) pe pint dt (a_new_state s, a_close_count s)
                 (map (\<lambda>i. (d ! (i * 3 + 1), d ! (i * 3 + 2))) ks)
           \<and> a_obj_ids s' = a_obj_ids s @ replicate (length ks) cur
           \<and> (ks \<noteq> [] \<longrightarrow>
                a_no_det_count s' = 0
                \<and> msg_v (a_car_control_msg s') =
                    (if fgt (d ! (last ks * 3 + 1)) (lit 0.25) then a_v s
                     else if fgt (d ! (last ks * 3 + 1)) (if del then lit 0.2 else lit 0.16)
                          then fmul (lit 0.8) (a_v s)
                          else Finite 0))"
  using sub
proof (induction ks arbitrary: s)
  case Nil
  show ?case by (simp add: capture_run_Nil)
next
  case (Cons k ks)
  from Cons.prems have k: "k \<in> set (target_ids d cur (frame_count d))" by simp
  from PIDController_total [OF dt] obtain omega e_out e_int_out e_der_out
    where pid: "PIDController (a_v s) (Finite 0) (d ! (k * 3 + 2)) pe pint dt
                  (HEADING_KP, HEADING_KI, HEADING_KD) =
                  Inr (a_v s, omega, e_out, e_int_out, e_der_out)"
    by blast
  from approach_match_result [OF pid, where cur = cur and del = del and r = "d ! (k * 3 + 1)"]
  obtain s1
    where s1: "approach_match cur pe pint dt del (d ! (k * 3 + 1)) (d ! (k * 3 + 2)) s = Inr s1"
      "a_v s1 = a_v s" "a_obj_ids s1 = a_obj_ids s @ [cur]" "a_no_det_count s1 = 0"
      "msg_v (a_car_control_msg s1) =
         (if fgt (d ! (k * 3 + 1)) (lit 0.25) then a_v s
          else if fgt (d ! (k * 3 + 1)) (if del then lit 0.2 else lit 0.16)
               then fmul (lit 0.8) (a_v s)
               else Finite 0)"
      "(a_new_state s1, a_close_count s1) =
         capture_rule del (a_new_state s, a_close_count s) (d ! (k * 3 + 1), omega)"
    by blast
  from Cons.prems have "set ks \<subseteq> set (target_ids d cur (frame_count d))" by simp
  from Cons.IH [OF this, of s1] obtain s'
    where s': "for_range ks (approach_body d cur pe pint dt del) s1 = Inr s'"
      "a_v s' = a_v s1"
      "(a_new_state s', a_close_count s') =
         capture_run del (a_v s1) pe pint dt (a_new_state s1, a_close_count s1)
           (map (\<lambda>i. (d ! (i * 3 + 1), d ! (i * 3 + 2))) ks)"
      "a_obj_ids s' = a_obj_ids s1 @ replicate (length ks) cur"
      "ks \<noteq> [] \<longrightarrow>
         a_no_det_count s' = 0
         \<and> msg_v (a_car_control_msg s') =
             (if fgt (d ! (last ks * 3 + 1)) (lit 0.25) then a_v s1
              else if fgt (d ! (last ks * 3 + 1)) (if del then lit 0.2 else lit 0.16)
                   then fmul (lit 0.8) (a_v s1)
                   else Finite 0)"
    by blast
  have run: "for_range (k # ks) (approach_body d cur pe pint dt del) s = Inr s'"
    using s1(1) s'(1) by (simp add: approach_body_target [OF ok k])
  have rule: "(a_new_state s', a_close_count s') =
                capture_run del (a_v s) pe pint dt (a_new_state s, a_close_count s)
                  (map (\<lambda>i. (d ! (i * 3 + 1), d ! (i * 3 + 2))) (k # ks))"
  proof -
    have "capture_run del (a_v s) pe pint dt (a_new_state s, a_close_count s)
            (map (\<lambda>i. (d ! (i * 3 + 1), d ! (i * 3 + 2))) (k # ks)) =
          capture_run del (a_v s) pe pint dt
            (capture_rule del (a_new_state s, a_close_count s) (d ! (k * 3 + 1), omega))
            (map (\<lambda>i. (d ! (i * 3 + 1), d ! (i * 3 + 2))) ks)"
      by (simp only: list.map capture_run_Cons pid_omega_Inr [OF pid])
    also have "\<dots> = capture_run del (a_v s1) pe pint dt (a_new_state s1, a_close_count s1)
            (map (\<lambda>i. (d ! (i * 3 + 1), d ! (i * 3 + 2))) ks)"
      by (simp only: s1(2) s1(6))
    finally show ?thesis using s'(3) by simp
  qed
  have ids: "a_obj_ids s' = a_obj_ids s @ replicate (length (k # ks)) cur"
    using s'(4) s1(3) by (simp add: replicate_app_Cons_same)
  have lst: "a_no_det_count s' = 0
             \<and> msg_v (a_car_control_msg s') =
                 (if fgt (d ! (last (k # ks) * 3 + 1)) (lit 0.25) then a_v s
                  else if fgt (d ! (last (k # ks) * 3 + 1)) (if del then lit 0.2 else lit 0.16)
                       then fmul (lit 0.8) (a_v s)
                       else Finite 0)"
  proof (cases "ks = []")
    case True
    with s'(1) s1(4,5) show ?thesis by simp
  next
    case False
    with s'(5) s1(2) show ?thesis by simp
  qed
  from run rule ids lst s'(2) s1(2) show ?case by simp
qed

lemma approach_with_targets:
  assumes ok: "frame_ok d" and dt: "dt \<noteq> Finite 0" and ne: "target_dets d cur \<noteq> []"
  shows "\<exists>msg' e' ei'.
           approach msg st d cur pe pint dt nd cc v del =
             Inr (msg', fst (capture_run del v pe pint dt (st, cc) (target_dets d cur)), e', ei',
                  0, snd (capture_run del v pe pint dt (st, cc) (target_dets d cur)))
           \<and> msg_v msg' =
               (if fgt (fst (last (target_dets d cur))) (lit 0.25) then v
                else if fgt (fst (last (target_dets d cur))) (if del then lit 0.2 else lit 0.16)
                     then fmul (lit 0.8) v
                     else Finite 0)"
proof -
  define ids where "ids = target_ids d cur (frame_count d)"
  from ne have idsne: "ids \<noteq> []" by (simp add: target_dets_def ids_def)
  define s0 where "s0 = \<lparr>a_car_control_msg = msg, a_new_state = st,
               a_e = pe, a_e_int = pint, a_obj_ids = [],
               a_no_det_count = nd, a_close_count = cc, a_v = v\<rparr>"
  from approach_targets [OF ok dt subset_refl, of cur pe pint del s0] obtain s'
    where s': "for_range ids (approach_body d cur pe pint dt del) s0 = Inr s'"
      "(a_new_state s', a_close_count s') =
         capture_run del v pe pint dt (st, cc) (target_dets d cur)"
      "a_obj_ids s' = replicate (length ids) cur"
      "a_no_det_count s' = 0"
      "msg_v (a_car_control_msg s') =
         (if fgt (d ! (last ids * 3 + 1)) (lit 0.25) then v
          else if fgt (d ! (last ids * 3 + 1)) (if del then lit 0.2 else lit 0.16)
               then fmul (lit 0.8) v
               else Finite 0)"
    using idsne by (auto simp: ids_def [symmetric] s0_def target_dets_def)
  from idsne have "last ids \<in> set (target_ids d cur (frame_count d))"
    by (simp add: ids_def)
  from target_ids_in_range [OF this] have "feq cur cur" by (auto intro: feq_right_refl)
  with idsne s'(3) have found: "py_in cur (a_obj_ids s')"
    by (simp add: py_in_def list_ex_iff)
  have lst: "fst (last (target_dets d cur)) = d ! (last ids * 3 + 1)"
    using idsne by (simp add: target_dets_def ids_def [symmetric] last_map)
  from s'(2) have st: "a_new_state s' = fst (capture_run del v pe pint dt (st, cc) (target_dets d cur))"
    and cc: "a_close_count s' = snd (capture_run del v pe pint dt (st, cc) (target_dets d cur))"
    by (simp_all add: prod_eq_iff)
  from frame_head [OF ok] obtain n
    where "getitem d 0 = Inr (Finite n)" "py_round (Finite n) = Inr (round_half_even n)"
      "nat (round_half_even n) = frame_count d"
    by blast
  then have "approach msg st d cur pe pint dt nd cc v del =
               Inr (a_car_control_msg s', a_new_state s', a_e s', a_e_int s', 0, a_close_count s')"
    using s'(1,4) found
    by (simp add: approach_def Let_def approach_loop_targets [OF ok] ids_def [symmetric]
        s0_def [symmetric])
  with st cc lst s'(5) show ?thesis by simp
qed

section \<open>Successive frames of the approach\<close>

lemma approach_frames_append:
  "approach_frames cur v del ctx (fs @ gs) =
     (case approach_frames cur v del ctx fs of
        Inl err \<Rightarrow> Inl err
      | Inr outs \<Rightarrow>
          (case approach_frames cur v del (if outs = [] then ctx else snd (last outs)) gs of
             Inl err \<Rightarrow> Inl err
           | Inr outs' \<Rightarrow> Inr (outs @ outs')))"
proof (induction fs arbitrary: ctx)
  case Nil
  show ?case by (simp split: sum.splits)
next
  case (Cons f fs)
  show ?case
    by (cases ctx; cases f) (auto simp: Cons.IH split: sum.splits prod.splits)
qed

lemma approach_frames_no_target:
  assumes "frame_valid f" "no_target cur f"
  shows "approach_frames cur v del (st, e0, ei0, nd, cc) [f] =
           Inr [((fst f)\<lparr>msg_v := Finite 0, msg_omega := Finite 0\<rparr>,
                 (if nd + 1 \<ge> 4 then SCANNING else st), e0, ei0,
                 (if nd + 1 \<ge> 4 then 0 else nd + 1), cc)]"
proof -
  obtain msg d dt where f: "f = (msg, d, dt)" by (cases f) auto
  from assms f have "frame_ok d" "target_dets d cur = []"
    by (simp_all add: frame_valid_def no_target_def)
  from approach_no_target [OF this] f show ?thesis by simp
qed

lemma approach_frames_target:
  assumes "frame_valid f" "\<not> no_target cur f"
  shows "\<exists>msg' st' e' ei' cc'.
           approach_frames cur v del (st, e0, ei0, nd, cc) [f] = Inr [(msg', st', e', ei', 0, cc')]
           \<and> (st' = st \<or> st' = CAPTURED)"
proof -
  obtain msg d dt where f: "f = (msg, d, dt)" by (cases f) auto
  from assms f have ok: "frame_ok d" and dt: "dt \<noteq> Finite 0" and ne: "target_dets d cur \<noteq> []"
    by (simp_all add: frame_valid_def no_target_def)
  from approach_with_targets [OF ok dt ne, where msg = msg and st = st and pe = e0
      and pint = ei0 and nd = nd and cc = cc and v = v and del = del]
    capture_run_state [where del = del and v = v and pe = e0 and pint = ei0 and dt = dt
      and st = st and cc = cc and dets = "target_dets d cur"] f
  show ?thesis by auto
qed

lemma trailing_no_target_snoc:
  "trailing_no_target cur (fs @ [f]) = (if no_target cur f then Suc (trailing_no_target cur fs) else 0)"
  by (simp add: trailing_no_target_def)

lemma approach_frames_identified:
  assumes "\<forall>f \<in> set fs. frame_valid f"
  shows "\<exists>outs. approach_frames cur v del (IDENTIFIED, e0, ei0, 0, cc0) fs = Inr outs
           \<and> length outs = length fs
           \<and> ((\<forall>out \<in> set outs. out_state out = IDENTIFIED) \<longrightarrow>
                (\<exists>e1 ei1 cc1.
                   (if outs = [] then (IDENTIFIED, e0, ei0, 0, cc0) else snd (last outs)) =
                     (IDENTIFIED, e1, ei1, int (trailing_no_target cur fs), cc1))
                \<and> trailing_no_target cur fs \<le> 3)"
  using assms
proof (induction fs rule: rev_induct)
  case Nil
  show ?case by (simp add: trailing_no_target_def)
next
  case (snoc f fs)
  from snoc.prems have valid: "frame_valid f" and "\<forall>f \<in> set fs. frame_valid f" by simp_all
  from snoc.IH [OF this(2)] obtain outs
    where outs: "approach_frames cur v del (IDENTIFIED, e0, ei0, 0, cc0) fs = Inr outs"
      "length outs = length fs"
      and inv: "(\<forall>out \<in> set outs. out_state out = IDENTIFIED) \<Longrightarrow>
                (\<exists>e1 ei1 cc1.
                   (if outs = [] then (IDENTIFIED, e0, ei0, 0, cc0) else snd (last outs)) =
                     (IDENTIFIED, e1, ei1, int (trailing_no_target cur fs), cc1))
                \<and> trailing_no_target cur fs \<le> 3"
    by blast
  define ctx where "ctx = (if outs = [] then (IDENTIFIED, e0, ei0, 0, cc0) else snd (last outs))"
  obtain st e1 ei1 nd cc1 where ctx: "ctx = (st, e1, ei1, nd, cc1)" by (cases ctx) auto
  show ?case
  proof (cases "no_target cur f")
    case True
    define out where "out = ((fst f)\<lparr>msg_v := Finite 0, msg_omega := Finite 0\<rparr>,
                 (if nd + 1 \<ge> 4 then SCANNING else st), e1, ei1,
                 (if nd + 1 \<ge> 4 then 0 else nd + 1), cc1)"
    from approach_frames_no_target [OF valid True, of v del st e1 ei1 nd cc1]
    have step: "approach_frames cur v del ctx [f] = Inr [out]"
      by (simp add: ctx out_def)
    have run: "approach_frames cur v del (IDENTIFIED, e0, ei0, 0, cc0) (fs @ [f]) = Inr (outs @ [out])"
      using outs(1) step by (simp add: approach_frames_append ctx_def [symmetric])
    have "(\<exists>e2 ei2 cc2. snd out = (IDENTIFIED, e2, ei2, int (trailing_no_target cur (fs @ [f])), cc2))
            \<and> trailing_no_target cur (fs @ [f]) \<le> 3"
      if all: "\<forall>x \<in> set (outs @ [out]). out_state x = IDENTIFIED"
    proof -
      from all have "\<forall>x \<in> set outs. out_state x = IDENTIFIED" by simp
      from inv [OF this] have st: "st = IDENTIFIED" and nd: "nd = int (trailing_no_target cur fs)"
        and le: "trailing_no_target cur fs \<le> 3"
        using ctx by (auto simp: ctx_def [symmetric])
      from all have "out_state out = IDENTIFIED" by simp
      then have "\<not> nd + 1 \<ge> 4"
        by (auto simp: out_def out_state_def st split: if_splits)
      with nd st True show ?thesis
        by (simp add: out_def trailing_no_target_snoc)
    qed
    with run outs(2) show ?thesis by auto
  next
    case False
    from approach_frames_target [OF valid False, of v del st e1 ei1 nd cc1]
    obtain msg' st' e' ei' cc' where
      step: "approach_frames cur v del ctx [f] = Inr [(msg', st', e', ei', 0, cc')]"
      by (auto simp: ctx)
    have run: "approach_frames cur v del (IDENTIFIED, e0, ei0, 0, cc0) (fs @ [f]) =
                 Inr (outs @ [(msg', st', e', ei', 0, cc')])"
      using outs(1) step by (simp add: approach_frames_append ctx_def [symmetric])
    have "(\<exists>e2 ei2 cc2. snd (msg', st', e', ei', 0, cc') =
              (IDENTIFIED, e2, ei2, int (trailing_no_target cur (fs @ [f])), cc2))
            \<and> trailing_no_target cur (fs @ [f]) \<le> 3"
      if all: "\<forall>x \<in> set (outs @ [(msg', st', e', ei', 0, cc')]). out_state x = IDENTIFIED"
    proof -
      from all have "st' = IDENTIFIED" by (simp add: out_state_def)
      with False show ?thesis by (simp add: trailing_no_target_snoc)
    qed
    with run outs(2) show ?thesis by auto
  qed
qed

section \<open>The scanning loop\<close>

lemma scanning_body_in_range:
  assumes "frame_ok d" "i < frame_count d"
  shows "scanning_body d cur i (m, st) =
           (if feq (d ! (i * 3 + 3)) cur
            then Inr (m\<lparr>msg_v := Finite 0, msg_omega := Finite 0\<rparr>, IDENTIFIED)
            else Inr (m, st))"
  using frame_index [OF assms] by (simp add: scanning_body_def getitem_in_range)

lemma scanning_loop_targets:
  assumes "frame_ok d"
  shows "for_range [0..<frame_count d] (scanning_body d cur) s =
           for_range (target_ids d cur (frame_count d)) (scanning_body d cur) s"
  unfolding target_ids_def
proof (rule for_range_filter)
  fix i s
  assume "i \<in> set [0..<frame_count d]" "\<not> feq (d ! (i * 3 + 3)) cur"
  then show "scanning_body d cur i s = Inr s"
    using scanning_body_in_range [OF assms, of i cur "fst s" "snd s"] by simp
qed

lemma scanning_targets:
  assumes "frame_ok d" "set ks \<subseteq> set (target_ids d cur (frame_count d))" "ks \<noteq> []"
  shows "for_range ks (scanning_body d cur) (m, st) =
           Inr (m\<lparr>msg_v := Finite 0, msg_omega := Finite 0\<rparr>, IDENTIFIED)"
  using assms(2,3)
proof (induction ks arbitrary: m st)
  case Nil
  then show ?case by simp
next
  case (Cons k ks)
  from Cons.prems have "k \<in> set (target_ids d cur (frame_count d))" by simp
  from target_ids_in_range [OF this] scanning_body_in_range [OF assms(1)]
  have step: "scanning_body d cur k (m, st) =
                Inr (m\<lparr>msg_v := Finite 0, msg_omega := Finite 0\<rparr>, IDENTIFIED)"
    by simp
  show ?case
  proof (cases "ks = []")
    case True
    with step show ?thesis by simp
  next
    case False
    from Cons.prems have "set ks \<subseteq> set (target_ids d cur (frame_count d))" by simp
    from Cons.IH [OF this False, of "m\<lparr>msg_v := Finite 0, msg_omega := Finite 0\<rparr>" IDENTIFIED] step
    show ?thesis by simp
  qed
qed

section \<open>The callbacks of the node\<close>

lemma pub_car_commands_stop: "msg_v (pub_car_commands self True header) = Finite 0"
  by (simp add: pub_car_commands_def)

lemma callback_latched:
  assumes "avoid_duckies self" "\<not> is_episode_start ev" "callback ia self ev = (self', cmds, err)"
  shows "avoid_duckies self' \<and> (\<forall>c \<in> set cmds. msg_v c = Finite 0)"
proof (cases ev)
  case (EpisodeStart header)
  with assms(2) show ?thesis by simp
next
  case (Image image_msg)
  with assms(1,3) show ?thesis
    by (auto simp: image_cb_def Let_def pub_car_commands_def split: if_splits option.splits)
next
  case Shutdown
  with assms(1,3) show ?thesis by (auto simp: on_shutdown_def)
qed

lemma run_latched:
  assumes "avoid_duckies self" "\<forall>ev \<in> set evs. \<not> is_episode_start ev"
  shows "avoid_duckies (fst (run ia self evs))
         \<and> (\<forall>c \<in> set (snd (run ia self evs)). msg_v c = Finite 0)"
  using assms
proof (induction evs arbitrary: self)
  case Nil
  then show ?case by simp
next
  case (Cons ev evs)
  obtain self' cmds err where cb: "callback ia self ev = (self', cmds, err)"
    by (cases "callback ia self ev") auto
  from Cons.prems have "\<not> is_episode_start ev" by simp
  from callback_latched [OF Cons.prems(1) this cb]
  have self': "avoid_duckies self'" and cmds: "\<forall>c \<in> set cmds. msg_v c = Finite 0" by simp_all
  from Cons.prems have "\<forall>ev \<in> set evs. \<not> is_episode_start ev" by simp
  from Cons.IH [OF self' this] cb cmds show ?case
    by (auto split: prod.splits)
qed

lemma run_append:
  "run ia self (evs @ evs') =
     (case run ia self evs of (self', cmds) \<Rightarrow>
        (case run ia self' evs' of (self'', cmds') \<Rightarrow> (self'', cmds @ cmds')))"
  by (induction evs arbitrary: self) (auto split: prod.splits)

lemma run_Cons:
  "run ia self (ev # evs) =
     (fst (run ia (fst (callback ia self ev)) evs),
      fst (snd (callback ia self ev)) @ snd (run ia (fst (callback ia self ev)) evs))"
  by (simp split: prod.splits)

lemma run_snoc:
  "fst (run ia self (evs @ [ev])) = fst (callback ia (fst (run ia self evs)) ev)"
  by (simp add: run_append split: prod.splits)

lemma image_cb_detection:
  assumes "initialized self" "1 + NUMBER_FRAMES_SKIPPED ia \<noteq> 0"
    "(frame_id self + 1) mod (1 + NUMBER_FRAMES_SKIPPED ia) = 0"
    "image_predict image_msg = Some (bboxes, classes, scores)"
    "det2bool ia bboxes classes scores"
  shows "image_cb ia self image_msg =
           (self\<lparr>frame_id := 0, avoid_duckies := True\<rparr>,
            [\<lparr>msg_header = image_header image_msg, msg_v = Finite 0, msg_omega = Finite 0\<rparr>],
            None)"
  using assms by (simp add: image_cb_def Let_def pub_car_commands_def)

lemma det2bool_iff:
  "det2bool ia bboxes classes scores \<longleftrightarrow>
     (\<exists>i. i < length bboxes \<and> i < length classes \<and> i < length scores
          \<and> filter_by_bboxes ia (bboxes ! i) \<and> filter_by_classes ia (classes ! i)
          \<and> filter_by_scores ia (scores ! i))"
  by (auto simp: det2bool_def nonzero_ids_def Let_def card_gt_0_iff)

lemma ia0_detection:
  "det2bool ia0 [[Finite 0, Finite 0, Finite 10, Finite 10]] [0] [Finite (3 / 4)]"
  by (simp add: det2bool_iff ia0_def fgt_def)

lemma ia0_no_detection: "\<not> det2bool ia0 [] [] []"
  by (simp add: det2bool_iff ia0_def)

lemma sample_run:
  "run ia0 (init_node\<lparr>frame_id := 1\<rparr>)
      [Image \<lparr>image_header = 1,
              image_predict =
                Some ([[Finite 0, Finite 0, Finite 10, Finite 10]], [0], [Finite (3 / 4)])\<rparr>,
       Image \<lparr>image_header = 2, image_predict = Some ([], [], [])\<rparr>,
       Image \<lparr>image_header = 3, image_predict = Some ([], [], [])\<rparr>]
   = (\<lparr>initialized = True, avoid_duckies = True, self_v = lit 0.04, frame_id = 0\<rparr>,
      [\<lparr>msg_header = 1, msg_v = Finite 0, msg_omega = Finite 0\<rparr>,
       \<lparr>msg_header = 2, msg_v = Finite 0, msg_omega = Finite 0\<rparr>,
       \<lparr>msg_header = 3, msg_v = Finite 0, msg_omega = Finite 0\<rparr>])"
  using ia0_detection ia0_no_detection
  by (simp add: image_cb_def init_node_def pub_car_commands_def Let_def ia0_def)

section \<open>The stop latch and the command publisher\<close>

text \<open>
  C1. Once a processed frame yields a non-empty intersection of the box, class and score
  filters (\<open>det2bool\<close> holds on a frame that is neither skipped nor undecodable), the
  latch \<open>avoid_duckies\<close> is set, it is still set after every further sequence of
  events without an episode start (so after every prefix of one), every command
  published from that frame on has \<open>v = 0\<close>, and an episode start after them leaves
  the latch false.
\<close>

theorem stop_latch:
  assumes "initialized self" "1 + NUMBER_FRAMES_SKIPPED ia \<noteq> 0"
    "(frame_id self + 1) mod (1 + NUMBER_FRAMES_SKIPPED ia) = 0"
    "image_predict image_msg = Some (bboxes, classes, scores)"
    "det2bool ia bboxes classes scores"
    "\<forall>ev \<in> set evs. \<not> is_episode_start ev"
  shows "avoid_duckies (fst (run ia self (Image image_msg # evs)))
         \<and> (\<forall>n. avoid_duckies (fst (run ia self (Image image_msg # take n evs))))
         \<and> (\<forall>c \<in> set (snd (run ia self (Image image_msg # evs))). msg_v c = Finite 0)
         \<and> \<not> avoid_duckies (fst (run ia self (Image image_msg # evs @ [EpisodeStart header])))"
proof -
  define self1 where "self1 = self\<lparr>frame_id := 0, avoid_duckies := True\<rparr>"
  have first: "image_cb ia self image_msg =
                 (self1,
                  [\<lparr>msg_header = image_header image_msg, msg_v = Finite 0, msg_omega = Finite 0\<rparr>],
                  None)"
    unfolding self1_def using assms(1-5) by (rule image_cb_detection)
  have latched: "avoid_duckies self1" by (simp add: self1_def)
  have rest: "avoid_duckies (fst (run ia self1 evs'))
                \<and> (\<forall>c \<in> set (snd (run ia self1 evs')). msg_v c = Finite 0)"
    if "set evs' \<subseteq> set evs" for evs'
    using that assms(6) by (intro run_latched [OF latched]) auto
  have a: "avoid_duckies (fst (run ia self (Image image_msg # evs)))"
    using rest [of evs] by (simp add: run_Cons first del: run.simps)
  have b: "avoid_duckies (fst (run ia self (Image image_msg # take n evs)))" for n
    using rest [of "take n evs"] set_take_subset [of n evs]
    by (simp add: run_Cons first del: run.simps)
  have c: "\<forall>c \<in> set (snd (run ia self (Image image_msg # evs))). msg_v c = Finite 0"
    using rest [of evs] by (simp add: run_Cons first del: run.simps)
  have "Image image_msg # evs @ [EpisodeStart header] = (Image image_msg # evs) @ [EpisodeStart header]"
    by simp
  then have d: "\<not> avoid_duckies (fst (run ia self (Image image_msg # evs @ [EpisodeStart header])))"
    by (simp only: run_snoc) (simp add: cb_episode_start_def Let_def)
  from a b c d show ?thesis by blast
qed

theorem stop_latch_witness:
  "initialized (init_node\<lparr>frame_id := 1\<rparr>)
   \<and> 1 + NUMBER_FRAMES_SKIPPED ia0 \<noteq> 0
   \<and> (frame_id (init_node\<lparr>frame_id := 1\<rparr>) + 1) mod (1 + NUMBER_FRAMES_SKIPPED ia0) = 0
   \<and> det2bool ia0 [[Finite 0, Finite 0, Finite 10, Finite 10]] [0] [Finite (3 / 4)]
   \<and> \<not> is_episode_start (Image \<lparr>image_header = 2, image_predict = Some ([], [], [])\<rparr>)
   \<and> avoid_duckies (fst (run ia0 (init_node\<lparr>frame_id := 1\<rparr>)
        [Image \<lparr>image_header = 1,
                image_predict =
                  Some ([[Finite 0, Finite 0, Finite 10, Finite 10]], [0], [Finite (3 / 4)])\<rparr>,
         Image \<lparr>image_header = 2, image_predict = Some ([], [], [])\<rparr>,
         Image \<lparr>image_header = 3, image_predict = Some ([], [], [])\<rparr>]))
   \<and> map msg_v (snd (run ia0 (init_node\<lparr>frame_id := 1\<rparr>)
        [Image \<lparr>image_header = 1,
                image_predict =
                  Some ([[Finite 0, Finite 0, Finite 10, Finite 10]], [0], [Finite (3 / 4)])\<rparr>,
         Image \<lparr>image_header = 2, image_predict = Some ([], [], [])\<rparr>,
         Image \<lparr>image_header = 3, image_predict = Some ([], [], [])\<rparr>])) =
       [Finite 0, Finite 0, Finite 0]
   \<and> \<not> avoid_duckies (fst (run ia0 (init_node\<lparr>frame_id := 1\<rparr>)
        [Image \<lparr>image_header = 1,
                image_predict =
                  Some ([[Finite 0, Finite 0, Finite 10, Finite 10]], [0], [Finite (3 / 4)])\<rparr>,
         Image \<lparr>image_header = 2, image_predict = Some ([], [], [])\<rparr>,
         Image \<lparr>image_header = 3, image_predict = Some ([], [], [])\<rparr>,
         EpisodeStart 4]))"
proof -
  have pre: "initialized (init_node\<lparr>frame_id := 1\<rparr>)"
    "1 + NUMBER_FRAMES_SKIPPED ia0 \<noteq> 0"
    "(frame_id (init_node\<lparr>frame_id := 1\<rparr>) + 1) mod (1 + NUMBER_FRAMES_SKIPPED ia0) = 0"
    "image_predict \<lparr>image_header = 1,
        image_predict =
          Some ([[Finite 0, Finite 0, Finite 10, Finite 10]], [0], [Finite (3 / 4)])\<rparr>
       = Some ([[Finite 0, Finite 0, Finite 10, Finite 10]], [0], [Finite (3 / 4)])"
    by (simp_all add: init_node_def ia0_def)
  have evs: "\<forall>ev \<in> set [Image \<lparr>image_header = 2, image_predict = Some ([], [], [])\<rparr>,
                          Image \<lparr>image_header = 3, image_predict = Some ([], [], [])\<rparr>].
               \<not> is_episode_start ev"
    by simp
  from stop_latch [OF pre ia0_detection evs, of 4] pre(1,2,3) ia0_detection sample_run
  show ?thesis by simp
qed

text \<open>
  The claim C4 at a command the scanning step proposes (\<open>v = 0\<close>, \<open>omega = 0.3\<close>):
  with the latch clear the publisher sends \<open>v = 0.04\<close>, \<open>omega = 0\<close>, not the
  proposed command; it has no argument through which a proposed command could reach it.
\<close>

theorem arbiter_ignores_proposal:
  "scanning msg0 SCANNING [Finite 0] (Finite 7) OMEGA_0 =
     Inr (\<lparr>msg_header = 0, msg_v = Finite 0, msg_omega = lit 0.3\<rparr>, SCANNING)
   \<and> msg_v (pub_car_commands init_node False 0) = lit 0.04
   \<and> msg_omega (pub_car_commands init_node False 0) = Finite 0
   \<and> pub_car_commands init_node False 0 \<noteq>
       \<lparr>msg_header = 0, msg_v = Finite 0, msg_omega = lit 0.3\<rparr>"
  by (simp add: pub_car_commands_def init_node_def scanning_def getitem_def round_half_even_def
      msg0_def OMEGA_0_def lits)

text \<open>
  C4, as amended. The publisher sends \<open>v = 0\<close>, \<open>omega = 0\<close> when its stop argument is
  set, and otherwise the node's own forward speed \<^verbatim>\<open>self.v\<close> with \<open>omega = 0\<close>: the
  angular velocity it sends is always zero, and it takes no proposed command.
\<close>

theorem pub_car_commands_published:
  "pub_car_commands self True header =
     \<lparr>msg_header = header, msg_v = Finite 0, msg_omega = Finite 0\<rparr>
   \<and> pub_car_commands self False header =
       \<lparr>msg_header = header, msg_v = self_v self, msg_omega = Finite 0\<rparr>"
  by (simp add: pub_car_commands_def)

text \<open>
  C9. The claim says that a frame that cannot be decoded still gets a zero command. On
  an initialised node that processes every frame, \<^verbatim>\<open>image_cb\<close> on such a frame returns
  without an exception and without having published any command.
\<close>

theorem image_cb_decode_failure:
  "image_cb \<lparr>NUMBER_FRAMES_SKIPPED = 0, filter_by_classes = (\<lambda>c. c = 0),
             filter_by_bboxes = (\<lambda>b. length b = 4),
             filter_by_scores = (\<lambda>s. fgt s (Finite (1 / 2)))\<rparr>
      init_node \<lparr>image_header = 1, image_predict = None\<rparr> = (init_node, [], None)"
  by (simp add: image_cb_def init_node_def)

section \<open>Evaluating the planner on sample frames\<close>

lemmas planner_defs = approach_def approach_body_def approach_match_def getitem_def
  PIDController_def Let_def HEADING_KP_def HEADING_KI_def HEADING_KD_def
  INT_MAX_def OMEGA_SCALING_def OMEGA_OFFSET_def fsub_def fgt_def fle_def feq_def
  py_min_def py_max_def py_in_def round_half_even_def lits round_offset_sum

lemmas frame_defs = frame_ok_def frame_count_def target_dets_def target_ids_def

text \<open>
  The roundings met when the target is seen at bearing 1 with time step 1, from a zero
  PID state, and two more literals.
\<close>

lemma unsettled_round_a: "round_double (- 1) = Finite (- 1)"
  using round_double_pos [of "1" "0" 4503599627370496] round_double_minus [of "1"]
  by (simp add: round_eval)

lemma unsettled_round_b: "round_double (- (1 / 4)) = Finite (- (1 / 4))"
  using round_double_pos [of "(1 / 4)" "- 2" 4503599627370496] round_double_minus [of "(1 / 4)"]
  by (simp add: round_eval)

lemma unsettled_round_c: "round_double (- (20769187434139312099389054151295 / 1298074214633706907132624082305024)) = Finite (- (1152921504606847 / 72057594037927936))"
  using round_double_pos [of "(20769187434139312099389054151295 / 1298074214633706907132624082305024)" "- 6" 4611686018427388] round_double_minus [of "(20769187434139312099389054151295 / 1298074214633706907132624082305024)"]
  by (simp add: round_eval)

lemma unsettled_round_d: "round_double (- (19167320014088831 / 72057594037927936)) = Finite (- (149744687610069 / 562949953421312))"
  using round_double_pos [of "(19167320014088831 / 72057594037927936)" "- 2" 4791830003522208] round_double_minus [of "(19167320014088831 / 72057594037927936)"]
  by (simp add: round_eval)

lemma unsettled_round_e: "round_double (- (7782220156096217 / 288230376151711744)) = Finite (- (7782220156096217 / 288230376151711744))"
  using round_double_pos [of "(7782220156096217 / 288230376151711744)" "- 6" 7782220156096217] round_double_minus [of "(7782220156096217 / 288230376151711744)"]
  by (simp add: round_eval)

lemma unsettled_round_f: "round_double (- (84451500212451545 / 288230376151711744)) = Finite (- (2639109381639111 / 9007199254740992))"
  using round_double_pos [of "(84451500212451545 / 288230376151711744)" "- 2" 5278218763278222] round_double_minus [of "(84451500212451545 / 288230376151711744)"]
  by (simp add: round_eval)

lemma unsettled_round_g: "round_double (- (3602879701896397 / 36028797018963968)) = Finite (- (3602879701896397 / 36028797018963968))"
  using round_double_pos [of "(3602879701896397 / 36028797018963968)" "- 4" 7205759403792794] round_double_minus [of "(3602879701896397 / 36028797018963968)"]
  by (simp add: round_eval)

lemma unsettled_round_h: "round_double (- (14159317228452841 / 36028797018963968)) = Finite (- (1769914653556605 / 4503599627370496))"
  using round_double_pos [of "(14159317228452841 / 36028797018963968)" "- 2" 7079658614226420] round_double_minus [of "(14159317228452841 / 36028797018963968)"]
  by (simp add: round_eval)

lemma unsettled_round_i: "round_double (- (1769914653556605 / 4503599627370496)) = Finite (- (1769914653556605 / 4503599627370496))"
  using round_double_pos [of "(1769914653556605 / 4503599627370496)" "- 2" 7079658614226420] round_double_minus [of "(1769914653556605 / 4503599627370496)"]
  by (simp add: round_eval)

lemma lit_0393: "lit 0.393 = Finite (1769914653556605 / 4503599627370496)"
  unfolding lit_def using round_double_pos [of "0.393" "- 2" 7079658614226420]
  by (simp add: round_eval)

lemma lit_0016: "lit 0.016 = Finite (1152921504606847 / 72057594037927936)"
  unfolding lit_def using round_double_pos [of "0.016" "- 6" 4611686018427388]
  by (simp add: round_eval)

lemma round_slow_speed: "round_double (20769187434139312099389054151295 / 1298074214633706907132624082305024) = Finite (1152921504606847 / 72057594037927936)"
  using round_double_pos [of "(20769187434139312099389054151295 / 1298074214633706907132624082305024)" "- 6" 4611686018427388]
  by (simp add: round_eval)

lemmas unsettled_rounds = unsettled_round_a unsettled_round_b unsettled_round_c unsettled_round_d unsettled_round_e unsettled_round_f unsettled_round_g unsettled_round_h unsettled_round_i

text \<open>
  Frames for object 7 and speed 0.02, from a zero PID state: the object close and
  straight ahead, no detection at all, the object far away (all with time step 0.5), and
  the object close at bearing 1 (time step 1).
\<close>

lemma close_frame_step:
  "approach msg0 st [Finite 1, lit 0.1, Finite 0, Finite 7] (Finite 7) (Finite 0) (Finite 0)
     (Finite (1 / 2)) nd cc (lit 0.02) False =
     Inr (msg0, (if cc + 1 \<ge> 8 then CAPTURED else st), Finite 0, Finite 0, 0,
          (if cc + 1 \<ge> 8 then 0 else cc + 1))"
  by (simp add: planner_defs msg0_def)

lemma empty_frame_step:
  "approach msg0 st [Finite 0] (Finite 7) (Finite 0) (Finite 0) (Finite (1 / 2)) nd cc
     (lit 0.02) False =
     Inr (msg0, (if nd + 1 \<ge> 4 then SCANNING else st), Finite 0, Finite 0,
          (if nd + 1 \<ge> 4 then 0 else nd + 1), cc)"
  by (simp add: planner_defs msg0_def)

lemma far_frame_step:
  "approach msg0 st [Finite 1, lit 0.3, Finite 0, Finite 7] (Finite 7) (Finite 0) (Finite 0)
     (Finite (1 / 2)) nd cc (lit 0.02) False =
     Inr (\<lparr>msg_header = 0, msg_v = lit 0.02, msg_omega = Finite 0\<rparr>, st, Finite 0, Finite 0,
          0, 0)"
  by (simp add: planner_defs msg0_def)

lemma unsettled_omega:
  "pid_omega (lit 0.02) (Finite 1) (Finite 0) (Finite 0) (Finite 1) = fneg (lit 0.393)"
  by (simp add: pid_omega_def planner_defs unsettled_rounds lit_0393)

lemma unsettled_frame_step:
  "approach msg0 IDENTIFIED [Finite 1, lit 0.1, Finite 1, Finite 7] (Finite 7) (Finite 0)
     (Finite 0) (Finite 1) 0 5 (lit 0.02) False =
     Inr (\<lparr>msg_header = 0, msg_v = Finite 0, msg_omega = fneg (lit 0.393)\<rparr>, IDENTIFIED,
          Finite (- 1), fneg (lit 0.04), 0, 5)"
  by (simp add: planner_defs msg0_def unsettled_rounds lit_0393)

lemma two_close_detections_step:
  "approach msg0 IDENTIFIED
     [Finite 2, lit 0.1, Finite 0, Finite 7, lit 0.1, Finite 0, Finite 7] (Finite 7) (Finite 0)
     (Finite 0) (Finite (1 / 2)) 0 6 (lit 0.02) False =
     Inr (msg0, CAPTURED, Finite 0, Finite 0, 0, 0)"
  by (simp add: planner_defs msg0_def upt_rec)

lemma far_then_four_empty_frames:
  "approach_frames (Finite 7) (lit 0.02) False (IDENTIFIED, Finite 0, Finite 0, 0, 0)
     [(msg0, [Finite 1, lit 0.3, Finite 0, Finite 7], Finite (1 / 2)),
      (msg0, [Finite 0], Finite (1 / 2)), (msg0, [Finite 0], Finite (1 / 2)),
      (msg0, [Finite 0], Finite (1 / 2)), (msg0, [Finite 0], Finite (1 / 2))]
   = Inr [(\<lparr>msg_header = 0, msg_v = lit 0.02, msg_omega = Finite 0\<rparr>, IDENTIFIED,
           Finite 0, Finite 0, 0, 0),
          (msg0, IDENTIFIED, Finite 0, Finite 0, 1, 0),
          (msg0, IDENTIFIED, Finite 0, Finite 0, 2, 0),
          (msg0, IDENTIFIED, Finite 0, Finite 0, 3, 0),
          (msg0, SCANNING, Finite 0, Finite 0, 0, 0)]"
  by (simp only: approach_frames.simps prod.case sum.case far_frame_step empty_frame_step) simp

lemma seven_close_one_empty_one_close:
  "approach_frames (Finite 7) (lit 0.02) False (IDENTIFIED, Finite 0, Finite 0, 0, 0)
     [(msg0, [Finite 1, lit 0.1, Finite 0, Finite 7], Finite (1 / 2)),
      (msg0, [Finite 1, lit 0.1, Finite 0, Finite 7], Finite (1 / 2)),
      (msg0, [Finite 1, lit 0.1, Finite 0, Finite 7], Finite (1 / 2)),
      (msg0, [Finite 1, lit 0.1, Finite 0, Finite 7], Finite (1 / 2)),
      (msg0, [Finite 1, lit 0.1, Finite 0, Finite 7], Finite (1 / 2)),
      (msg0, [Finite 1, lit 0.1, Finite 0, Finite 7], Finite (1 / 2)),
      (msg0, [Finite 1, lit 0.1, Finite 0, Finite 7], Finite (1 / 2)),
      (msg0, [Finite 0], Finite (1 / 2)),
      (msg0, [Finite 1, lit 0.1, Finite 0, Finite 7], Finite (1 / 2))]
   = Inr [(msg0, IDENTIFIED, Finite 0, Finite 0, 0, 1),
          (msg0, IDENTIFIED, Finite 0, Finite 0, 0, 2),
          (msg0, IDENTIFIED, Finite 0, Finite 0, 0, 3),
          (msg0, IDENTIFIED, Finite 0, Finite 0, 0, 4),
          (msg0, IDENTIFIED, Finite 0, Finite 0, 0, 5),
          (msg0, IDENTIFIED, Finite 0, Finite 0, 0, 6),
          (msg0, IDENTIFIED, Finite 0, Finite 0, 0, 7),
          (msg0, IDENTIFIED, Finite 0, Finite 0, 1, 7),
          (msg0, CAPTURED, Finite 0, Finite 0, 0, 0)]"
  by (simp only: approach_frames.simps prod.case sum.case close_frame_step empty_frame_step) simp

section \<open>Scanning\<close>

text \<open>
  C7. In the SCANNING state, on a detection list whose indices are all in range, the
  scanning step returns; the state it returns is IDENTIFIED if and only if some detection
  of the frame has the id of the target, the command is then \<open>v = 0\<close>, \<open>omega = 0\<close>;
  otherwise the state stays SCANNING and the command is \<open>v = 0\<close> with the scanning
  rate the step was given as \<open>omega\<close>.
\<close>

theorem scanning_to_identified:
  assumes "frame_ok d"
  shows "\<exists>msg' st'.
           scanning msg SCANNING d cur omega = Inr (msg', st')
           \<and> (st' = IDENTIFIED \<longleftrightarrow> (\<exists>i < frame_count d. feq (d ! (i * 3 + 3)) cur))
           \<and> (st' = IDENTIFIED \<longrightarrow> msg' = msg\<lparr>msg_v := Finite 0, msg_omega := Finite 0\<rparr>)
           \<and> (st' \<noteq> IDENTIFIED \<longrightarrow>
                st' = SCANNING \<and> msg' = msg\<lparr>msg_v := Finite 0, msg_omega := omega\<rparr>)"
proof -
  from frame_head [OF assms] obtain n
    where head: "getitem d 0 = Inr (Finite n)" "py_round (Finite n) = Inr (round_half_even n)"
      "nat (round_half_even n) = frame_count d"
    by blast
  show ?thesis
  proof (cases "target_ids d cur (frame_count d) = []")
    case True
    then have none: "\<not> (\<exists>i < frame_count d. feq (d ! (i * 3 + 3)) cur)"
      by (auto simp: target_ids_def filter_empty_conv)
    have "scanning msg SCANNING d cur omega =
            Inr (msg\<lparr>msg_v := Finite 0, msg_omega := omega\<rparr>, SCANNING)"
      using head True by (simp add: scanning_def Let_def scanning_loop_targets [OF assms])
    with none show ?thesis by simp
  next
    case False
    then have some: "\<exists>i < frame_count d. feq (d ! (i * 3 + 3)) cur"
      by (auto simp: target_ids_def filter_empty_conv)
    have "scanning msg SCANNING d cur omega =
            Inr (msg\<lparr>msg_v := Finite 0, msg_omega := Finite 0\<rparr>, IDENTIFIED)"
      using head scanning_targets [OF assms subset_refl False]
      by (simp add: scanning_def Let_def scanning_loop_targets [OF assms])
    with some show ?thesis by simp
  qed
qed

theorem scanning_to_identified_witness:
  "frame_ok [Finite 2, lit 0.5, lit 0.1, Finite 3, lit 0.4, lit 0.2, Finite 7]
   \<and> frame_count [Finite 2, lit 0.5, lit 0.1, Finite 3, lit 0.4, lit 0.2, Finite 7] = 2
   \<and> scanning msg0 SCANNING [Finite 2, lit 0.5, lit 0.1, Finite 3, lit 0.4, lit 0.2, Finite 7]
        (Finite 7) OMEGA_0 = Inr (msg0, IDENTIFIED)
   \<and> scanning msg0 SCANNING [Finite 2, lit 0.5, lit 0.1, Finite 3, lit 0.4, lit 0.2, Finite 7]
        (Finite 5) OMEGA_0 =
       Inr (\<lparr>msg_header = 0, msg_v = Finite 0, msg_omega = lit 0.3\<rparr>, SCANNING)"
proof -
  define d where "d = [Finite 2, lit 0.5, lit 0.1, Finite 3, lit 0.4, lit 0.2, Finite 7]"
  have ok: "frame_ok d" and n: "frame_count d = 2"
    by (simp_all add: d_def frame_defs round_half_even_def)
  have some: "\<exists>i < frame_count d. feq (d ! (i * 3 + 3)) (Finite 7)"
    unfolding n by (rule exI [of _ 1]) (simp add: d_def feq_def)
  have none: "\<not> (\<exists>i < frame_count d. feq (d ! (i * 3 + 3)) (Finite 5))"
    unfolding n
  proof
    assume "\<exists>i < 2. feq (d ! (i * 3 + 3)) (Finite 5)"
    then obtain i :: nat where i: "i < 2" and five: "feq (d ! (i * 3 + 3)) (Finite 5)"
      by blast
    from i consider "i = 0" | "i = 1" by arith
    then show False using five by cases (simp_all add: d_def feq_def)
  qed
  from scanning_to_identified [OF ok, of msg0 "Finite 7" OMEGA_0] some
  have a: "scanning msg0 SCANNING d (Finite 7) OMEGA_0 = Inr (msg0, IDENTIFIED)"
    by (auto simp: msg0_def)
  from scanning_to_identified [OF ok, of msg0 "Finite 5" OMEGA_0] none
  have b: "scanning msg0 SCANNING d (Finite 5) OMEGA_0 =
             Inr (\<lparr>msg_header = 0, msg_v = Finite 0, msg_omega = lit 0.3\<rparr>, SCANNING)"
    by (auto simp: msg0_def OMEGA_0_def)
  from ok n a b show ?thesis unfolding d_def by simp
qed

section \<open>The approach step on one frame\<close>

text \<open>
  C8. When the last detection of the target in the frame has range \<open>r\<close>, the approach
  step returns and the linear velocity of its command is \<open>v\<close> for \<open>r > 0.25\<close>,
  \<open>0.8 * v\<close> for \<open>r\<^sub>0 < r \<le> 0.25\<close> and 0 for \<open>r \<le> r\<^sub>0\<close>, where \<open>r\<^sub>0\<close> is 0.2 when
  \<open>delivery\<close> is true and 0.16 otherwise. In particular \<open>r = 0.25\<close> gives
  \<open>0.8 * v\<close> and \<open>r = r\<^sub>0\<close> gives 0.
\<close>

theorem range_bands:
  assumes "frame_ok d" "target_dets d cur \<noteq> []" "last (target_dets d cur) = (r, theta)"
    "dt \<noteq> Finite 0"
  shows "\<exists>msg' st' e' ei' nd' cc'.
           approach msg st d cur pe pint dt nd cc v del = Inr (msg', st', e', ei', nd', cc')
           \<and> msg_v msg' =
               (if fgt r (lit 0.25) then v
                else if fgt r (if del then lit 0.2 else lit 0.16) then fmul (lit 0.8) v
                else Finite 0)
           \<and> (r = lit 0.25 \<longrightarrow> msg_v msg' = fmul (lit 0.8) v)
           \<and> (del \<and> r = lit 0.2 \<longrightarrow> msg_v msg' = Finite 0)
           \<and> (\<not> del \<and> r = lit 0.16 \<longrightarrow> msg_v msg' = Finite 0)"
proof -
  from approach_with_targets [OF assms(1,4,2), where msg = msg and st = st and pe = pe
      and pint = pint and nd = nd and cc = cc and v = v and del = del] assms(3)
  obtain msg' st' e' ei' cc'
    where run: "approach msg st d cur pe pint dt nd cc v del = Inr (msg', st', e', ei', 0, cc')"
      and v: "msg_v msg' =
             (if fgt r (lit 0.25) then v
              else if fgt r (if del then lit 0.2 else lit 0.16) then fmul (lit 0.8) v
              else Finite 0)"
    by auto
  have "fgt (lit 0.25) (lit 0.2)" "fgt (lit 0.25) (lit 0.16)" "\<not> fgt (lit 0.2) (lit 0.25)"
    "\<not> fgt (lit 0.16) (lit 0.25)"
    by (simp_all add: fgt_def lits)
  with run v show ?thesis by (auto simp: fgt_def)
qed

theorem range_bands_witness:
  "frame_ok [Finite 1, lit 0.25, Finite 0, Finite 7]
   \<and> target_dets [Finite 1, lit 0.25, Finite 0, Finite 7] (Finite 7) = [(lit 0.25, Finite 0)]
   \<and> frame_ok [Finite 1, lit 0.16, Finite 0, Finite 7]
   \<and> target_dets [Finite 1, lit 0.16, Finite 0, Finite 7] (Finite 7) = [(lit 0.16, Finite 0)]
   \<and> frame_ok [Finite 1, lit 0.2, Finite 0, Finite 7]
   \<and> target_dets [Finite 1, lit 0.2, Finite 0, Finite 7] (Finite 7) = [(lit 0.2, Finite 0)]
   \<and> Finite (1 / 2) \<noteq> Finite 0
   \<and> approach msg0 IDENTIFIED [Finite 1, lit 0.25, Finite 0, Finite 7] (Finite 7) (Finite 0)
        (Finite 0) (Finite (1 / 2)) 0 0 (lit 0.02) False =
       Inr (\<lparr>msg_header = 0, msg_v = lit 0.016, msg_omega = Finite 0\<rparr>, IDENTIFIED,
            Finite 0, Finite 0, 0, 0)
   \<and> approach msg0 IDENTIFIED [Finite 1, lit 0.25, Finite 0, Finite 7] (Finite 7) (Finite 0)
        (Finite 0) (Finite (1 / 2)) 0 0 (lit 0.02) True =
       Inr (\<lparr>msg_header = 0, msg_v = lit 0.016, msg_omega = Finite 0\<rparr>, IDENTIFIED,
            Finite 0, Finite 0, 0, 0)
   \<and> approach msg0 IDENTIFIED [Finite 1, lit 0.16, Finite 0, Finite 7] (Finite 7) (Finite 0)
        (Finite 0) (Finite (1 / 2)) 0 0 (lit 0.02) False =
       Inr (msg0, IDENTIFIED, Finite 0, Finite 0, 0, 1)
   \<and> approach msg0 DELIVERING [Finite 1, lit 0.2, Finite 0, Finite 7] (Finite 7) (Finite 0)
        (Finite 0) (Finite (1 / 2)) 0 0 (lit 0.02) True =
       Inr (msg0, DELIVERING, Finite 0, Finite 0, 0, 1)
   \<and> approach msg0 IDENTIFIED [Finite 1, lit 0.2, Finite 0, Finite 7] (Finite 7) (Finite 0)
        (Finite 0) (Finite (1 / 2)) 0 0 (lit 0.02) False =
       Inr (\<lparr>msg_header = 0, msg_v = lit 0.016, msg_omega = Finite 0\<rparr>, IDENTIFIED,
            Finite 0, Finite 0, 0, 0)"
  using range_bands [of "[Finite 1, lit 0.25, Finite 0, Finite 7]" "Finite 7" "lit 0.25"
      "Finite 0" "Finite (1 / 2)" msg0 IDENTIFIED "Finite 0" "Finite 0" 0 0 "lit 0.02" False]
  by (simp add: frame_defs planner_defs msg0_def lit_0016 round_slow_speed)

text \<open>
  The claim C10 at a frame without any detection, entered with \<open>no_det_count = 3\<close>:
  the state passed in as IDENTIFIED comes back as SCANNING, so the counter and the
  command are not all that such a frame affects.
\<close>

theorem no_target_changes_state:
  "frame_ok [Finite 0] \<and> target_dets [Finite 0] (Finite 7) = []
   \<and> approach msg0 IDENTIFIED [Finite 0] (Finite 7) (Finite 0) (Finite 0) (Finite (1 / 2)) 3 0
        (lit 0.02) False = Inr (msg0, SCANNING, Finite 0, Finite 0, 0, 0)
   \<and> SCANNING \<noteq> IDENTIFIED"
  by (simp add: frame_defs planner_defs msg0_def)

text \<open>
  C10, as amended. On a frame in which no detection has the id of the target, the
  approach step returns \<open>e = prev_e\<close>, \<open>e_int = prev_int\<close> and \<open>close_count\<close>
  unchanged; the command is zero, \<open>no_det_count\<close> is incremented, and when the
  incremented count reaches 4 the counter is reset to 0 and the returned state is
  SCANNING; otherwise the state is returned unchanged.
\<close>

theorem no_target_frame_effect:
  assumes "frame_ok d" "target_dets d cur = []"
  shows "approach msg st d cur pe pint dt nd cc v del =
           Inr (msg\<lparr>msg_v := Finite 0, msg_omega := Finite 0\<rparr>,
                (if nd + 1 \<ge> 4 then SCANNING else st), pe, pint,
                (if nd + 1 \<ge> 4 then 0 else nd + 1), cc)"
  using assms by (rule approach_no_target)

theorem no_target_frame_effect_witness:
  "frame_ok [Finite 1, lit 0.3, lit 0.1, Finite 3]
   \<and> target_dets [Finite 1, lit 0.3, lit 0.1, Finite 3] (Finite 7) = []
   \<and> approach \<lparr>msg_header = 5, msg_v = lit 0.02, msg_omega = lit 0.2\<rparr> DELIVERING
        [Finite 1, lit 0.3, lit 0.1, Finite 3] (Finite 7) (lit 0.2) (lit 0.01) (Finite (1 / 2))
        1 5 (lit 0.02) True =
       Inr (\<lparr>msg_header = 5, msg_v = Finite 0, msg_omega = Finite 0\<rparr>, DELIVERING, lit 0.2,
            lit 0.01, 2, 5)"
  using no_target_frame_effect [of "[Finite 1, lit 0.3, lit 0.1, Finite 3]" "Finite 7"
      "\<lparr>msg_header = 5, msg_v = lit 0.02, msg_omega = lit 0.2\<rparr>" DELIVERING "lit 0.2"
      "lit 0.01" "Finite (1 / 2)" 1 5 "lit 0.02" True]
  by (simp add: frame_defs round_half_even_def feq_def)

text \<open>
  The claim C3 at three inputs. A frame in which the target is close (\<open>r = 0.1\<close>) but
  the control action is not small (\<open>omega = -0.393\<close>) does not qualify, and it returns
  \<open>close_count = 5\<close> as it received it, not 0; so does a frame without any detection.
  And after seven qualifying frames, a frame without the target and one more qualifying
  frame, the state is CAPTURED, with no eight consecutive qualifying frames.
\<close>

theorem close_count_not_reset:
  "approach msg0 IDENTIFIED [Finite 1, lit 0.1, Finite 1, Finite 7] (Finite 7) (Finite 0)
     (Finite 0) (Finite 1) 0 5 (lit 0.02) False =
     Inr (\<lparr>msg_header = 0, msg_v = Finite 0, msg_omega = fneg (lit 0.393)\<rparr>, IDENTIFIED,
          Finite (- 1), fneg (lit 0.04), 0, 5)
   \<and> approach msg0 IDENTIFIED [Finite 0] (Finite 7) (Finite 0) (Finite 0) (Finite (1 / 2)) 0 5
       (lit 0.02) False = Inr (msg0, IDENTIFIED, Finite 0, Finite 0, 1, 5)
   \<and> approach_frames (Finite 7) (lit 0.02) False (IDENTIFIED, Finite 0, Finite 0, 0, 0)
       [(msg0, [Finite 1, lit 0.1, Finite 0, Finite 7], Finite (1 / 2)),
        (msg0, [Finite 1, lit 0.1, Finite 0, Finite 7], Finite (1 / 2)),
        (msg0, [Finite 1, lit 0.1, Finite 0, Finite 7], Finite (1 / 2)),
        (msg0, [Finite 1, lit 0.1, Finite 0, Finite 7], Finite (1 / 2)),
        (msg0, [Finite 1, lit 0.1, Finite 0, Finite 7], Finite (1 / 2)),
        (msg0, [Finite 1, lit 0.1, Finite 0, Finite 7], Finite (1 / 2)),
        (msg0, [Finite 1, lit 0.1, Finite 0, Finite 7], Finite (1 / 2)),
        (msg0, [Finite 0], Finite (1 / 2)),
        (msg0, [Finite 1, lit 0.1, Finite 0, Finite 7], Finite (1 / 2))]
     = Inr [(msg0, IDENTIFIED, Finite 0, Finite 0, 0, 1),
            (msg0, IDENTIFIED, Finite 0, Finite 0, 0, 2),
            (msg0, IDENTIFIED, Finite 0, Finite 0, 0, 3),
            (msg0, IDENTIFIED, Finite 0, Finite 0, 0, 4),
            (msg0, IDENTIFIED, Finite 0, Finite 0, 0, 5),
            (msg0, IDENTIFIED, Finite 0, Finite 0, 0, 6),
            (msg0, IDENTIFIED, Finite 0, Finite 0, 0, 7),
            (msg0, IDENTIFIED, Finite 0, Finite 0, 1, 7),
            (msg0, CAPTURED, Finite 0, Finite 0, 0, 0)]"
proof -
  have "approach msg0 IDENTIFIED [Finite 0] (Finite 7) (Finite 0) (Finite 0) (Finite (1 / 2)) 0 5
          (lit 0.02) False = Inr (msg0, IDENTIFIED, Finite 0, Finite 0, 1, 5)"
    by (simp add: empty_frame_step)
  with unsettled_frame_step seven_close_one_empty_one_close show ?thesis by (intro conjI)
qed

text \<open>
  C3, as amended. On a frame with indices in range and a time step other than zero, the
  approach step returns, and the state and \<open>close_count\<close> it returns are those the
  capture rule gives, applied to the detections of the target one after the other in
  the order of the frame, starting from the state and the count received: a detection
  with \<open>r > r\<^sub>0\<close> resets the count to 0; a detection with \<open>r\<close> not above \<open>r\<^sub>0\<close>
  increments the count when \<open>|omega * scaling| < offset + 0.065\<close> and leaves it
  otherwise, and then, if the count is 8 or more, sets the state to CAPTURED and the
  count to 0. A frame without a detection of the target returns the count unchanged,
  and only such a frame can return SCANNING (when it is the fourth in a row). So a
  capture happens on the detection that brings the count to 8, whether or not the
  qualifying detections came in consecutive frames, or in eight different frames.
\<close>

theorem close_count_steps:
  assumes "frame_ok d" "dt \<noteq> Finite 0"
  shows "\<exists>msg' e' ei' nd'.
           approach msg st d cur pe pint dt nd cc v del =
             Inr (msg',
                  (if target_dets d cur = [] \<and> 4 \<le> nd + 1 then SCANNING
                   else fst (capture_run del v pe pint dt (st, cc) (target_dets d cur))),
                  e', ei', nd',
                  snd (capture_run del v pe pint dt (st, cc) (target_dets d cur)))"
proof (cases "target_dets d cur = []")
  case True
  from approach_no_target [OF assms(1) True, of msg st pe pint dt nd cc v del] True
  show ?thesis by (simp add: capture_run_Nil)
next
  case False
  from approach_with_targets [OF assms False, where msg = msg and st = st and pe = pe
      and pint = pint and nd = nd and cc = cc and v = v and del = del] False
  show ?thesis by auto
qed

theorem close_count_steps_witness:
  "frame_ok [Finite 2, lit 0.1, Finite 0, Finite 7, lit 0.1, Finite 0, Finite 7]
   \<and> Finite (1 / 2) \<noteq> Finite 0
   \<and> target_dets [Finite 2, lit 0.1, Finite 0, Finite 7, lit 0.1, Finite 0, Finite 7] (Finite 7)
       = [(lit 0.1, Finite 0), (lit 0.1, Finite 0)]
   \<and> pid_omega (lit 0.02) (Finite 0) (Finite 0) (Finite 0) (Finite (1 / 2)) = Finite 0
   \<and> capture_run False (lit 0.02) (Finite 0) (Finite 0) (Finite (1 / 2)) (IDENTIFIED, 6)
        [(lit 0.1, Finite 0), (lit 0.1, Finite 0)] = (CAPTURED, 0)
   \<and> approach msg0 IDENTIFIED
        [Finite 2, lit 0.1, Finite 0, Finite 7, lit 0.1, Finite 0, Finite 7] (Finite 7)
        (Finite 0) (Finite 0) (Finite (1 / 2)) 0 6 (lit 0.02) False =
       Inr (msg0, CAPTURED, Finite 0, Finite 0, 0, 0)
   \<and> frame_ok [Finite 1, lit 0.1, Finite 1, Finite 7]
   \<and> Finite 1 \<noteq> Finite 0
   \<and> target_dets [Finite 1, lit 0.1, Finite 1, Finite 7] (Finite 7) = [(lit 0.1, Finite 1)]
   \<and> pid_omega (lit 0.02) (Finite 1) (Finite 0) (Finite 0) (Finite 1) = fneg (lit 0.393)
   \<and> capture_run False (lit 0.02) (Finite 0) (Finite 0) (Finite 1) (IDENTIFIED, 5)
        [(lit 0.1, Finite 1)] = (IDENTIFIED, 5)
   \<and> approach msg0 IDENTIFIED [Finite 1, lit 0.1, Finite 1, Finite 7] (Finite 7) (Finite 0)
        (Finite 0) (Finite 1) 0 5 (lit 0.02) False =
       Inr (\<lparr>msg_header = 0, msg_v = Finite 0, msg_omega = fneg (lit 0.393)\<rparr>, IDENTIFIED,
            Finite (- 1), fneg (lit 0.04), 0, 5)"
proof -
  have zero: "pid_omega (lit 0.02) (Finite 0) (Finite 0) (Finite 0) (Finite (1 / 2)) = Finite 0"
    by (simp add: pid_omega_def planner_defs)
  have frames: "frame_ok [Finite 2, lit 0.1, Finite 0, Finite 7, lit 0.1, Finite 0, Finite 7]"
    "target_dets [Finite 2, lit 0.1, Finite 0, Finite 7, lit 0.1, Finite 0, Finite 7] (Finite 7)
       = [(lit 0.1, Finite 0), (lit 0.1, Finite 0)]"
    "frame_ok [Finite 1, lit 0.1, Finite 1, Finite 7]"
    "target_dets [Finite 1, lit 0.1, Finite 1, Finite 7] (Finite 7) = [(lit 0.1, Finite 1)]"
    by (simp_all add: frame_defs round_half_even_def feq_def upt_rec)
  have rule: "capture_run False (lit 0.02) (Finite 0) (Finite 0) (Finite (1 / 2)) (IDENTIFIED, 6)
        [(lit 0.1, Finite 0), (lit 0.1, Finite 0)] = (CAPTURED, 0)"
    "capture_run False (lit 0.02) (Finite 0) (Finite 0) (Finite 1) (IDENTIFIED, 5)
        [(lit 0.1, Finite 1)] = (IDENTIFIED, 5)"
    unfolding capture_run_def
    by (simp_all only: list.map prod.case zero unsettled_omega)
      (simp_all add: small_action_def OMEGA_SCALING_def OMEGA_OFFSET_def fgt_def lits lit_0393
        round_offset_sum unsettled_rounds)
  from close_count_steps [of "[Finite 2, lit 0.1, Finite 0, Finite 7, lit 0.1, Finite 0, Finite 7]"
      "Finite (1 / 2)" msg0 IDENTIFIED "Finite 7" "Finite 0" "Finite 0" 0 6 "lit 0.02" False]
    close_count_steps [of "[Finite 1, lit 0.1, Finite 1, Finite 7]" "Finite 1" msg0 IDENTIFIED
      "Finite 7" "Finite 0" "Finite 0" 0 5 "lit 0.02" False]
    zero frames rule unsettled_omega two_close_detections_step unsettled_frame_step
  show ?thesis by simp
qed

section \<open>Leaving the approach for lack of detections\<close>

text \<open>
  C5. Frames are handled in order from the IDENTIFIED state with \<open>no_det_count = 0\<close>,
  each call receiving what the previous one returned, and every frame before the last
  has left the state IDENTIFIED. Then the last frame returns the state SCANNING if and
  only if the frames without a detection of the target at the end of the sequence are
  exactly 4; a frame without the target returns the zero command and the number of such
  frames at the end as \<open>no_det_count\<close>, or 0 when it is the fourth; a frame with the
  target returns \<open>no_det_count = 0\<close> and does not return SCANNING.
\<close>

theorem identified_back_to_scanning:
  assumes "\<forall>g \<in> set (fs @ [f]). frame_valid g"
  shows "\<exists>outs out.
           approach_frames cur v del (IDENTIFIED, e0, ei0, 0, cc0) (fs @ [f]) = Inr (outs @ [out])
           \<and> length outs = length fs
           \<and> ((\<forall>x \<in> set outs. out_state x = IDENTIFIED) \<longrightarrow>
                (out_state out = SCANNING \<longleftrightarrow> trailing_no_target cur (fs @ [f]) = 4)
                \<and> (no_target cur f \<longrightarrow>
                     msg_v (fst out) = Finite 0 \<and> msg_omega (fst out) = Finite 0
                     \<and> out_no_det_count out =
                         (if trailing_no_target cur (fs @ [f]) = 4 then 0
                          else int (trailing_no_target cur (fs @ [f]))))
                \<and> (\<not> no_target cur f \<longrightarrow>
                     out_no_det_count out = 0 \<and> out_state out \<noteq> SCANNING))"
proof -
  from assms have valid: "frame_valid f" and "\<forall>g \<in> set fs. frame_valid g" by simp_all
  from approach_frames_identified [OF this(2), of cur v del e0 ei0 cc0] obtain outs
    where outs: "approach_frames cur v del (IDENTIFIED, e0, ei0, 0, cc0) fs = Inr outs"
      "length outs = length fs"
      and inv: "(\<forall>x \<in> set outs. out_state x = IDENTIFIED) \<Longrightarrow>
                (\<exists>e1 ei1 cc1.
                   (if outs = [] then (IDENTIFIED, e0, ei0, 0, cc0) else snd (last outs)) =
                     (IDENTIFIED, e1, ei1, int (trailing_no_target cur fs), cc1))
                \<and> trailing_no_target cur fs \<le> 3"
    by blast
  define ctx where "ctx = (if outs = [] then (IDENTIFIED, e0, ei0, 0, cc0) else snd (last outs))"
  obtain st e1 ei1 nd cc1 where ctx: "ctx = (st, e1, ei1, nd, cc1)" by (cases ctx) auto
  have known: "st = IDENTIFIED \<and> nd = int (trailing_no_target cur fs) \<and> trailing_no_target cur fs \<le> 3"
    if "\<forall>x \<in> set outs. out_state x = IDENTIFIED"
    using inv [OF that] ctx by (auto simp: ctx_def [symmetric])
  show ?thesis
  proof (cases "no_target cur f")
    case True
    define out where "out = ((fst f)\<lparr>msg_v := Finite 0, msg_omega := Finite 0\<rparr>,
                 (if nd + 1 \<ge> 4 then SCANNING else st), e1, ei1,
                 (if nd + 1 \<ge> 4 then 0 else nd + 1), cc1)"
    from approach_frames_no_target [OF valid True, of v del st e1 ei1 nd cc1]
    have step: "approach_frames cur v del ctx [f] = Inr [out]"
      by (simp add: ctx out_def)
    have run: "approach_frames cur v del (IDENTIFIED, e0, ei0, 0, cc0) (fs @ [f]) = Inr (outs @ [out])"
      using outs(1) step by (simp add: approach_frames_append ctx_def [symmetric])
    have "(out_state out = SCANNING \<longleftrightarrow> trailing_no_target cur (fs @ [f]) = 4)
            \<and> msg_v (fst out) = Finite 0 \<and> msg_omega (fst out) = Finite 0
            \<and> out_no_det_count out =
                (if trailing_no_target cur (fs @ [f]) = 4 then 0
                 else int (trailing_no_target cur (fs @ [f])))"
      if "\<forall>x \<in> set outs. out_state x = IDENTIFIED"
      using known [OF that] True
      by (auto simp: out_def out_state_def out_no_det_count_def trailing_no_target_snoc)
    with run outs(2) True show ?thesis by blast
  next
    case False
    from approach_frames_target [OF valid False, of v del st e1 ei1 nd cc1]
    obtain msg' st' e' ei' cc' where
      step: "approach_frames cur v del ctx [f] = Inr [(msg', st', e', ei', 0, cc')]"
      and st': "st' = st \<or> st' = CAPTURED"
      by (auto simp: ctx)
    have run: "approach_frames cur v del (IDENTIFIED, e0, ei0, 0, cc0) (fs @ [f]) =
                 Inr (outs @ [(msg', st', e', ei', 0, cc')])"
      using outs(1) step by (simp add: approach_frames_append ctx_def [symmetric])
    have "(out_state (msg', st', e', ei', 0, cc') = SCANNING \<longleftrightarrow>
              trailing_no_target cur (fs @ [f]) = 4)
            \<and> out_no_det_count (msg', st', e', ei', 0, cc') = 0
            \<and> out_state (msg', st', e', ei', 0, cc') \<noteq> SCANNING"
      if "\<forall>x \<in> set outs. out_state x = IDENTIFIED"
      using known [OF that] False st'
      by (auto simp: out_state_def out_no_det_count_def trailing_no_target_snoc)
    with run outs(2) False show ?thesis by blast
  qed
qed

theorem identified_back_to_scanning_witness:
  "frame_valid (msg0, [Finite 1, lit 0.3, Finite 0, Finite 7], Finite (1 / 2))
   \<and> frame_valid (msg0, [Finite 0], Finite (1 / 2))
   \<and> \<not> no_target (Finite 7) (msg0, [Finite 1, lit 0.3, Finite 0, Finite 7], Finite (1 / 2))
   \<and> no_target (Finite 7) (msg0, [Finite 0], Finite (1 / 2))
   \<and> trailing_no_target (Finite 7)
        [(msg0, [Finite 1, lit 0.3, Finite 0, Finite 7], Finite (1 / 2)),
         (msg0, [Finite 0], Finite (1 / 2)), (msg0, [Finite 0], Finite (1 / 2)),
         (msg0, [Finite 0], Finite (1 / 2)), (msg0, [Finite 0], Finite (1 / 2))] = 4
   \<and> approach_frames (Finite 7) (lit 0.02) False (IDENTIFIED, Finite 0, Finite 0, 0, 0)
        [(msg0, [Finite 1, lit 0.3, Finite 0, Finite 7], Finite (1 / 2)),
         (msg0, [Finite 0], Finite (1 / 2)), (msg0, [Finite 0], Finite (1 / 2)),
         (msg0, [Finite 0], Finite (1 / 2)), (msg0, [Finite 0], Finite (1 / 2))]
      = Inr [(\<lparr>msg_header = 0, msg_v = lit 0.02, msg_omega = Finite 0\<rparr>, IDENTIFIED,
              Finite 0, Finite 0, 0, 0),
             (msg0, IDENTIFIED, Finite 0, Finite 0, 1, 0),
             (msg0, IDENTIFIED, Finite 0, Finite 0, 2, 0),
             (msg0, IDENTIFIED, Finite 0, Finite 0, 3, 0),
             (msg0, SCANNING, Finite 0, Finite 0, 0, 0)]"
proof -
  define far where "far = (msg0, [Finite 1, lit 0.3, Finite 0, Finite 7], Finite (1 / 2))"
  define none where "none = (msg0, [Finite 0], Finite (1 / 2))"
  have valid: "frame_valid far" "frame_valid none"
    by (simp_all add: far_def none_def frame_valid_def frame_defs round_half_even_def)
  have target: "\<not> no_target (Finite 7) far" "no_target (Finite 7) none"
    by (simp_all add: far_def none_def no_target_def frame_defs round_half_even_def feq_def)
  have trailing: "trailing_no_target (Finite 7) [far, none, none, none, none] = 4"
    using target by (simp add: trailing_no_target_def)
  have all: "\<forall>g \<in> set ([far, none, none, none] @ [none]). frame_valid g"
    using valid by simp
  from identified_back_to_scanning [OF all, of "Finite 7" "lit 0.02" False "Finite 0" "Finite 0" 0]
  obtain outs out where
    "approach_frames (Finite 7) (lit 0.02) False (IDENTIFIED, Finite 0, Finite 0, 0, 0)
       ([far, none, none, none] @ [none]) = Inr (outs @ [out])"
    by blast
  with valid target trailing far_then_four_empty_frames show ?thesis
    unfolding far_def none_def by simp
qed

end
